theory Spec2Isabelle
  imports Complex_Main
begin

section \<open>Numbers: float64 without rounding\<close>

text \<open>
  The arrays of \<^verbatim>\<open>fdm3t.py\<close> hold NumPy float64 values. A value is a finite number,
  plus or minus infinity, or NaN. Finite values are real numbers here: rounding, overflow,
  underflow and the sign of zero are not modelled, the special values are, because the
  code relies on them (infinite resistances of inactive cells, NaN heads).
\<close>

datatype float64 = Fin real | PInf | NInf | NaN

fun fadd :: "float64 \<Rightarrow> float64 \<Rightarrow> float64" where
  "fadd (Fin a) (Fin b) = Fin (a + b)"
| "fadd NaN _ = NaN"
| "fadd _ NaN = NaN"
| "fadd PInf NInf = NaN"
| "fadd NInf PInf = NaN"
| "fadd PInf _ = PInf"
| "fadd _ PInf = PInf"
| "fadd NInf _ = NInf"
| "fadd _ NInf = NInf"

fun fneg :: "float64 \<Rightarrow> float64" where
  "fneg (Fin a) = Fin (- a)"
| "fneg PInf = NInf"
| "fneg NInf = PInf"
| "fneg NaN = NaN"

text \<open>The infinity with the sign of a product or quotient; \<open>0 * inf\<close> is NaN.\<close>

definition signed_inf :: "real \<Rightarrow> float64" where
  "signed_inf s = (if s > 0 then PInf else if s < 0 then NInf else NaN)"

fun fmul :: "float64 \<Rightarrow> float64 \<Rightarrow> float64" where
  "fmul (Fin a) (Fin b) = Fin (a * b)"
| "fmul NaN _ = NaN"
| "fmul _ NaN = NaN"
| "fmul (Fin a) PInf = signed_inf a"
| "fmul (Fin a) NInf = signed_inf (- a)"
| "fmul PInf (Fin b) = signed_inf b"
| "fmul NInf (Fin b) = signed_inf (- b)"
| "fmul PInf PInf = PInf"
| "fmul NInf NInf = PInf"
| "fmul PInf NInf = NInf"
| "fmul NInf PInf = NInf"

text \<open>
  NumPy division: a finite non-zero number over zero is an infinity (with a warning, not
  an exception), zero over zero and infinity over infinity are NaN, finite over infinity
  is zero.
\<close>

fun fdiv :: "float64 \<Rightarrow> float64 \<Rightarrow> float64" where
  "fdiv (Fin a) (Fin b) = (if b = 0 then signed_inf a else Fin (a / b))"
| "fdiv NaN _ = NaN"
| "fdiv _ NaN = NaN"
| "fdiv (Fin a) PInf = Fin 0"
| "fdiv (Fin a) NInf = Fin 0"
| "fdiv PInf (Fin b) = (if b < 0 then NInf else PInf)"
| "fdiv NInf (Fin b) = (if b < 0 then PInf else NInf)"
| "fdiv PInf _ = NaN"
| "fdiv NInf _ = NaN"

fun fless :: "float64 \<Rightarrow> float64 \<Rightarrow> bool" where
  "fless (Fin a) (Fin b) = (a < b)"
| "fless NaN _ = False"
| "fless _ NaN = False"
| "fless NInf NInf = False"
| "fless NInf _ = True"
| "fless PInf _ = False"
| "fless (Fin a) PInf = True"
| "fless (Fin a) NInf = False"

text \<open>\<^verbatim>\<open>np.log\<close>: minus infinity at zero, NaN below zero.\<close>

fun flog :: "float64 \<Rightarrow> float64" where
  "flog (Fin a) = (if a > 0 then Fin (ln a) else if a = 0 then NInf else NaN)"
| "flog PInf = PInf"
| "flog NInf = NaN"
| "flog NaN = NaN"

instantiation float64 :: "{zero,one,plus,minus,uminus,times,inverse,ord}"
begin

definition zero_float64 :: float64 where "zero_float64 = Fin 0"
definition one_float64 :: float64 where "one_float64 = Fin 1"
definition plus_float64 :: "float64 \<Rightarrow> float64 \<Rightarrow> float64" where
  "plus_float64 a b = fadd a b"
definition uminus_float64 :: "float64 \<Rightarrow> float64" where
  "uminus_float64 a = fneg a"
definition minus_float64 :: "float64 \<Rightarrow> float64 \<Rightarrow> float64" where
  "minus_float64 a b = fadd a (fneg b)"
definition times_float64 :: "float64 \<Rightarrow> float64 \<Rightarrow> float64" where
  "times_float64 a b = fmul a b"
definition divide_float64 :: "float64 \<Rightarrow> float64 \<Rightarrow> float64" where
  "divide_float64 a b = fdiv a b"
definition inverse_float64 :: "float64 \<Rightarrow> float64" where
  "inverse_float64 a = fdiv (Fin 1) a"
definition less_float64 :: "float64 \<Rightarrow> float64 \<Rightarrow> bool" where
  "less_float64 a b = fless a b"
definition less_eq_float64 :: "float64 \<Rightarrow> float64 \<Rightarrow> bool" where
  "less_eq_float64 a b = (case a of NaN \<Rightarrow> False | _ \<Rightarrow> fless a b \<or> a = b)"

instance ..

end

definition is_fin :: "float64 \<Rightarrow> bool" where
  "is_fin v = (case v of Fin _ \<Rightarrow> True | _ \<Rightarrow> False)"

definition rl :: "float64 \<Rightarrow> real" where
  "rl v = (case v of Fin a \<Rightarrow> a | _ \<Rightarrow> 0)"

text \<open>\<^verbatim>\<open>sum\<close> of a vector.\<close>

definition fsum :: "float64 list \<Rightarrow> float64" where
  "fsum xs = foldr (+) xs 0"

section \<open>Arrays\<close>

text \<open>
  An ndarray is its shape and its elements in row-major (C) order, which is the order
  \<^verbatim>\<open>ravel\<close> and \<^verbatim>\<open>reshape\<close> keep. The element \<open>(k, j, i)\<close> of an array of shape
  \<open>(n0, n1, n2)\<close> is at position \<open>(k * n1 + j) * n2 + i\<close>.
\<close>

record 'a ndarray =
  shape :: "nat list"
  data :: "'a list"

definition wf_array :: "'a ndarray \<Rightarrow> bool" where
  "wf_array a = (length (data a) = prod_list (shape a))"

definition at3 :: "nat \<Rightarrow> nat \<Rightarrow> 'a list \<Rightarrow> nat \<Rightarrow> nat \<Rightarrow> nat \<Rightarrow> 'a" where
  "at3 n1 n2 a k j i = a ! ((k * n1 + j) * n2 + i)"

text \<open>The flat array of shape \<open>(n0, n1, n2)\<close> whose element \<open>(k, j, i)\<close> is \<open>f k j i\<close>.\<close>

definition tab3 :: "nat \<Rightarrow> nat \<Rightarrow> nat \<Rightarrow> (nat \<Rightarrow> nat \<Rightarrow> nat \<Rightarrow> 'a) \<Rightarrow> 'a list" where
  "tab3 n0 n1 n2 f =
     map (\<lambda>p. f (p div (n1 * n2)) ((p div n2) mod n1) (p mod n2)) [0..<n0 * n1 * n2]"

text \<open>Boolean-mask indexing \<^verbatim>\<open>v[mask]\<close>: the elements where the mask is true, in order.\<close>

definition compress :: "bool list \<Rightarrow> 'a list \<Rightarrow> 'a list" where
  "compress msk xs = map snd (filter fst (zip msk xs))"

text \<open>
  Boolean-mask assignment \<^verbatim>\<open>v[mask] = ys\<close> from a vector with one value per true
  position of the mask.
\<close>

fun mask_assign :: "bool list \<Rightarrow> 'a list \<Rightarrow> 'a list \<Rightarrow> 'a list" where
  "mask_assign (True # ms) (x # xs) (y # ys) = y # mask_assign ms xs ys"
| "mask_assign (False # ms) (x # xs) ys = x # mask_assign ms xs ys"
| "mask_assign _ xs _ = xs"

text \<open>
  \<^verbatim>\<open>v[mask] = w[mask]\<close> for \<open>v\<close> and \<open>w\<close> of the same shape: the masked positions of
  \<open>v\<close> take the value \<open>w\<close> has at the same position.
\<close>

definition mask_copy :: "bool list \<Rightarrow> 'a list \<Rightarrow> 'a list \<Rightarrow> 'a list" where
  "mask_copy msk w v = map (\<lambda>(m, wv, vv). if m then wv else vv) (zip msk (zip w v))"

text \<open>\<^verbatim>\<open>v[mask] = c\<close> for a scalar \<open>c\<close>.\<close>

definition mask_fill :: "bool list \<Rightarrow> 'a \<Rightarrow> 'a list \<Rightarrow> 'a list" where
  "mask_fill msk c v = map (\<lambda>(m, vv). if m then c else vv) (zip msk v)"

section \<open>Errors\<close>

text \<open>
  \<open>ShapeDiffers name s m\<close> is the \<^verbatim>\<open>AssertionError\<close> of \<^verbatim>\<open>fdm3t\<close> with the message
  "shape of name s differs from that of model m"; \<open>AssertFailed msg\<close> is a failed
  \<^verbatim>\<open>assert\<close> of the class constructor with its message; \<open>ValueError\<close> stands for the
  explicit \<^verbatim>\<open>raise ValueError\<close> of the constructor; \<open>PyError name\<close> stands for an
  exception that Python or NumPy raise themselves (tuple unpacking, a missing attribute,
  reshape, broadcasting, negative dimensions, an index out of range), \<open>name\<close> telling
  which; \<open>SolverError\<close> for an exception of the linear solver.
\<close>

datatype error =
    ShapeDiffers string "nat list" "nat list"
  | AssertFailed string
  | ValueError string
  | PyError string
  | SolverError

section \<open>The grid\<close>

text \<open>
  Modelled from the spec: the grid class is not part of the source; the solver reads
  these attributes of it. The spec gives the grid's shape as \<open>(Nz, Ny, Nx)\<close> and its
  arrays the flat node numbering; \<open>gr_shape\<close> and \<open>gr_nod\<close> are derived accordingly.
  \<open>gr_x\<close> are the \<open>nx + 1\<close> cell boundaries along x, \<open>gr_xm\<close> the \<open>nx\<close> cell centres,
  \<open>gr_DZ\<close>, \<open>gr_Volume\<close> and \<open>gr_NOD\<close> are arrays of the grid's shape, given flat.
\<close>

record grid =
  gr_axial :: bool
  gr_nx :: nat
  gr_ny :: nat
  gr_nz :: nat
  gr_dx :: "float64 list"
  gr_dy :: "float64 list"
  gr_DZ :: "float64 list"
  gr_x :: "float64 list"
  gr_xm :: "float64 list"
  gr_Volume :: "float64 list"
  gr_NOD :: "nat list"

definition gr_shape :: "grid \<Rightarrow> nat list" where
  "gr_shape gr = [gr_nz gr, gr_ny gr, gr_nx gr]"

definition gr_nod :: "grid \<Rightarrow> nat" where
  "gr_nod gr = gr_nz gr * gr_ny gr * gr_nx gr"

section \<open>Inputs and validation of \<^verbatim>\<open>fdm3t\<close>\<close>

text \<open>
  The argument \<^verbatim>\<open>kxyz\<close> is a tuple of arrays, a list of arrays or a single array.
\<close>

datatype kxyz = KTuple "float64 ndarray list" | KList "float64 ndarray list" | KArray "float64 ndarray"

text \<open>
  Lines 69 to 72. A tuple is unpacked into three names, which fails unless it has three
  elements; anything else is bound to all three names. A Python list has no attribute
  \<^verbatim>\<open>shape\<close>, so the first check fails on it.
\<close>

definition unpack_kxyz :: "kxyz \<Rightarrow> error + (float64 ndarray \<times> float64 ndarray \<times> float64 ndarray)" where
  "unpack_kxyz kxyz =
     (case kxyz of
        KTuple [kx, ky, kz] \<Rightarrow> Inr (kx, ky, kz)
      | KTuple _ \<Rightarrow> Inl (PyError ''ValueError: unpack'')
      | KList _ \<Rightarrow> Inl (PyError ''AttributeError: shape'')
      | KArray k \<Rightarrow> Inr (k, k, k))"

text \<open>Lines 74 to 81: the four shape checks, in the source's order.\<close>

definition check_shapes ::
  "grid \<Rightarrow> float64 ndarray \<Rightarrow> float64 ndarray \<Rightarrow> float64 ndarray \<Rightarrow> float64 ndarray \<Rightarrow> error + unit" where
  "check_shapes gr kx ky kz Ss =
     (if shape kx \<noteq> gr_shape gr then Inl (ShapeDiffers ''kx'' (shape kx) (gr_shape gr))
      else if shape ky \<noteq> gr_shape gr then Inl (ShapeDiffers ''ky'' (shape ky) (gr_shape gr))
      else if shape kz \<noteq> gr_shape gr then Inl (ShapeDiffers ''kz'' (shape kz) (gr_shape gr))
      else if shape Ss \<noteq> gr_shape gr then Inl (ShapeDiffers ''Ss'' (shape Ss) (gr_shape gr))
      else Inr ())"

text \<open>Lines 83 to 85: \<^verbatim>\<open>k[k < 1e-20] = 1e-20\<close>. A NaN entry compares false and stays.\<close>

definition k_floor :: float64 where
  "k_floor = Fin (1 / 10 ^ 20)"

definition clamp_k :: "float64 list \<Rightarrow> float64 list" where
  "clamp_k k = map (\<lambda>v. if v < k_floor then k_floor else v) k"

text \<open>
  Broadcasting a raveled array against a vector of \<open>n\<close> elements: the same length, or a
  single element repeated.
\<close>

definition bcast :: "nat \<Rightarrow> 'a list \<Rightarrow> error + 'a list" where
  "bcast n v =
     (if length v = n then Inr v
      else if length v = 1 then Inr (replicate n (hd v))
      else Inl (PyError ''ValueError: broadcast''))"

section \<open>Resistances and conductances\<close>

text \<open>
  Lines 95 to 108. \<open>proxy\<close> is the factor of line 103, which the solver fixes at 0.1: when
  the innermost boundary radius is not positive, \<open>proxy * x[1]\<close> replaces it in the copy
  \<open>x\<close> of the boundaries. The result is \<open>(Rx1, Rx2, Ry1, Rz1)\<close>; in Cartesian mode
  \<open>Rx2\<close> is \<open>Rx1\<close>.
\<close>

definition resistances ::
  "grid \<Rightarrow> float64 \<Rightarrow> float64 list \<Rightarrow> float64 list \<Rightarrow> float64 list \<Rightarrow>
   float64 list \<times> float64 list \<times> float64 list \<times> float64 list" where
  "resistances gr proxy kx ky kz =
     (let nz = gr_nz gr; ny = gr_ny gr; nx = gr_nx gr;
          dx = gr_dx gr; dy = gr_dy gr; DZ = at3 ny nx (gr_DZ gr)
      in if \<not> gr_axial gr then
           let Rx1 = tab3 nz ny nx (\<lambda>k j i. Fin (1/2) * dx ! i / (dy ! j * DZ k j i) / at3 ny nx kx k j i);
               Ry1 = tab3 nz ny nx (\<lambda>k j i. Fin (1/2) * dy ! j / (DZ k j i * dx ! i) / at3 ny nx ky k j i);
               Rz1 = tab3 nz ny nx (\<lambda>k j i. Fin (1/2) * DZ k j i / (dx ! i * dy ! j) / at3 ny nx kz k j i)
           in (Rx1, Rx1, Ry1, Rz1)
         else
           let gx = gr_x gr;
               x = gx[0 := (if 0 < gx ! 0 then gx ! 0 else proxy * gx ! 1)];
               Rx1 = tab3 nz ny nx (\<lambda>k j i.
                       1 / (Fin (2 * pi) * at3 ny nx kx k j i * DZ k j i) * flog (x ! (i + 1) / gr_xm gr ! i));
               Rx2 = tab3 nz ny nx (\<lambda>k j i.
                       1 / (Fin (2 * pi) * at3 ny nx kx k j i * DZ k j i) * flog (gr_xm gr ! i / x ! i));
               Ry1 = tab3 nz ny nx (\<lambda>k j i. PInf * 1);
               Rz1 = tab3 nz ny nx (\<lambda>k j i.
                       Fin (1/2) * DZ k j i /
                         (Fin pi * (gx ! (i + 1) * gx ! (i + 1) - gx ! i * gx ! i) * at3 ny nx kz k j i))
           in (Rx1, Rx2, Ry1, Rz1))"

text \<open>
  Lines 110 to 121: the resistances of inactive cells become infinite, and the
  conductance of a face is the inverse of the sum of the two half-cell resistances the
  source's slices select. The result is \<open>(Cx, Cy, Cz)\<close>, of shapes \<open>(nz, ny, nx - 1)\<close>,
  \<open>(nz, ny - 1, nx)\<close> and \<open>(nz - 1, ny, nx)\<close>.
\<close>

definition conductances ::
  "grid \<Rightarrow> float64 \<Rightarrow> bool list \<Rightarrow> float64 list \<Rightarrow> float64 list \<Rightarrow> float64 list \<Rightarrow>
   float64 list \<times> float64 list \<times> float64 list" where
  "conductances gr proxy inact kx ky kz =
     (case resistances gr proxy kx ky kz of (Rx1a, Rx2a, Ry1a, Rz1a) \<Rightarrow>
        let nz = gr_nz gr; ny = gr_ny gr; nx = gr_nx gr;
            Rx1 = mask_fill inact PInf Rx1a;
            Rx2 = mask_fill inact PInf Rx2a;
            Ry1 = mask_fill inact PInf Ry1a;
            Ry2 = Ry1;
            Rz1 = mask_fill inact PInf Rz1a;
            Rz2 = Rz1;
            Cx = tab3 nz ny (nx - 1) (\<lambda>k j i. 1 / (at3 ny nx Rx1 k j (i + 1) + at3 ny nx Rx2 k j i));
            Cy = tab3 nz (ny - 1) nx (\<lambda>k j i. 1 / (at3 ny nx Ry1 k (j + 1) i + at3 ny nx Ry2 k j i));
            Cz = tab3 (nz - 1) ny nx (\<lambda>k j i. 1 / (at3 ny nx Rz1 (k + 1) j i + at3 ny nx Rz2 k j i))
        in (Cx, Cy, Cz))"

section \<open>The system matrix\<close>

text \<open>
  A sparse matrix is modelled by its table of entries, a list of rows; an entry that the
  sparse format does not store is the number zero. \<open>csc_matrix n dat rows cols\<close> is
  \<^verbatim>\<open>sp.csc_matrix((dat, (rows, cols)), (n, n))\<close>: the entry at \<open>(i, j)\<close> is the sum of
  all the values given for that position, and an index outside the matrix is an error.
\<close>

type_synonym matrix = "float64 list list"

definition coo_entry :: "float64 list \<Rightarrow> nat list \<Rightarrow> nat list \<Rightarrow> nat \<Rightarrow> nat \<Rightarrow> float64" where
  "coo_entry dat rows cols i j =
     fsum (map fst (filter (\<lambda>(d, r, c). r = i \<and> c = j) (zip dat (zip rows cols))))"

definition csc_matrix :: "nat \<Rightarrow> float64 list \<Rightarrow> nat list \<Rightarrow> nat list \<Rightarrow> error + matrix" where
  "csc_matrix n dat rows cols =
     (if length rows = length dat \<and> length cols = length dat
      then if list_ex (\<lambda>r. n \<le> r) rows \<or> list_ex (\<lambda>c. n \<le> c) cols
           then Inl (PyError ''ValueError: index exceeds matrix dimensions'')
           else Inr (map (\<lambda>i. map (\<lambda>j. coo_entry dat rows cols i j) [0..<n]) [0..<n])
      else Inl (PyError ''ValueError: row, column, and data array must all be the same length''))"

definition mat_neg :: "matrix \<Rightarrow> matrix" where
  "mat_neg A = map (map uminus) A"

definition mat_add :: "matrix \<Rightarrow> matrix \<Rightarrow> matrix" where
  "mat_add A B = map2 (map2 (+)) A B"

text \<open>\<^verbatim>\<open>sp.diags(v)\<close>: the square matrix with \<open>v\<close> on its diagonal.\<close>

definition diags :: "float64 list \<Rightarrow> matrix" where
  "diags v = map (\<lambda>i. map (\<lambda>j. if i = j then v ! i else 0) [0..<length v]) [0..<length v]"

text \<open>\<^verbatim>\<open>A.sum(axis=1)\<close>: the sum of every row.\<close>

definition row_sums :: "matrix \<Rightarrow> float64 list" where
  "row_sums A = map fsum A"

text \<open>\<^verbatim>\<open>A.dot(v)\<close>.\<close>

definition dot :: "matrix \<Rightarrow> float64 list \<Rightarrow> float64 list" where
  "dot A v = map (\<lambda>row. fsum (map2 (*) row v)) A"

text \<open>
  Lines 126 to 141: the six arrays of neighbour numbers are slices of \<^verbatim>\<open>gr.NOD\<close>, and
  the conductances are entered twice each, once per direction.
\<close>

definition assemble_coo ::
  "grid \<Rightarrow> float64 list \<Rightarrow> float64 list \<Rightarrow> float64 list \<Rightarrow> float64 list \<times> nat list \<times> nat list" where
  "assemble_coo gr Cx Cy Cz =
     (let nz = gr_nz gr; ny = gr_ny gr; nx = gr_nx gr; N = at3 ny nx (gr_NOD gr);
          IW = tab3 nz ny (nx - 1) (\<lambda>k j i. N k j i);
          IE = tab3 nz ny (nx - 1) (\<lambda>k j i. N k j (i + 1));
          IN = tab3 nz (ny - 1) nx (\<lambda>k j i. N k j i);
          IS = tab3 nz (ny - 1) nx (\<lambda>k j i. N k (j + 1) i);
          IT = tab3 (nz - 1) ny nx (\<lambda>k j i. N k j i);
          IB = tab3 (nz - 1) ny nx (\<lambda>k j i. N (k + 1) j i)
      in (Cx @ Cx @ Cy @ Cy @ Cz @ Cz,
          IE @ IW @ IN @ IS @ IB @ IT,
          IW @ IE @ IS @ IN @ IT @ IB))"

text \<open>Line 143: \<^verbatim>\<open>A = -A + sp.diags(np.array(A.sum(axis=1)).ravel())\<close>.\<close>

definition add_diagonal :: "matrix \<Rightarrow> matrix" where
  "add_diagonal A = mat_add (mat_neg A) (diags (row_sums A))"

definition system_matrix ::
  "grid \<Rightarrow> float64 list \<Rightarrow> float64 list \<Rightarrow> float64 list \<Rightarrow> error + matrix" where
  "system_matrix gr Cx Cy Cz =
     (case assemble_coo gr Cx Cy Cz of (dat, rows, cols) \<Rightarrow>
        (case csc_matrix (gr_nod gr) dat rows cols of
           Inl e \<Rightarrow> Inl e
         | Inr A \<Rightarrow> Inr (add_diagonal A)))"

section \<open>Time stepping\<close>

text \<open>
  \<^verbatim>\<open>spsolve\<close> belongs to SciPy, not to the source: the model takes it as an argument.
  It receives the matrix and the right-hand side and returns the solution vector, or
  \<open>None\<close> when it raises.
\<close>

type_synonym solver = "matrix \<Rightarrow> float64 list \<Rightarrow> float64 list option"

text \<open>What is fixed before the loop starts (the local variables the loop reads).\<close>

record system =
  sys_A :: matrix
  sys_Cs :: "float64 list"
  sys_FQ :: "float64 list"
  sys_active :: "bool list"
  sys_inact :: "bool list"
  sys_fxhd :: "bool list"
  sys_Cx :: "float64 list"
  sys_Cy :: "float64 list"
  sys_Cz :: "float64 list"

text \<open>What one pass of the loop writes: the slices of index \<open>it\<close> and \<open>idt\<close>.\<close>

record step_out =
  st_Phi :: "float64 list"
  st_Q :: "float64 list"
  st_Qs :: "float64 list"
  st_Qx :: "float64 list"
  st_Qy :: "float64 list"
  st_Qz :: "float64 list"

text \<open>
  Lines 167 to 189, one pass of the loop. \<open>Phi_prev\<close> is \<^verbatim>\<open>Phi[it-1]\<close>; the slice
  \<^verbatim>\<open>Phi[it]\<close> is all zeros when the pass starts (line 147). \<open>sys_FQ\<close> is the raveled
  \<^verbatim>\<open>FQ\<close>, which line 170 broadcasts against a vector of \<open>nod\<close> elements. The solver's
  result must have one value per active cell, or the assignment of line 172 fails.
  \<open>implicit_matrix\<close> is \<^verbatim>\<open>A + sp.diags(Cs / dt)\<close>, \<open>rhs_vector\<close> is \<^verbatim>\<open>RHS\<close>
  (line 170), \<open>reduced_matrix\<close> and \<open>reduced_rhs\<close> are the two arguments of
  \<^verbatim>\<open>spsolve\<close> (lines 172 and 173).
\<close>

definition implicit_matrix :: "system \<Rightarrow> float64 \<Rightarrow> matrix" where
  "implicit_matrix S dt = mat_add (sys_A S) (diags (map (\<lambda>c. c / dt) (sys_Cs S)))"

definition rhs_vector :: "system \<Rightarrow> float64 \<Rightarrow> float64 list \<Rightarrow> float64 list \<Rightarrow> float64 list" where
  "rhs_vector S dt FQ Phi_prev =
     map2 (-) FQ (dot (map (compress (sys_fxhd S)) (implicit_matrix S dt))
                      (compress (sys_fxhd S) Phi_prev))"

definition reduced_matrix :: "system \<Rightarrow> float64 \<Rightarrow> matrix" where
  "reduced_matrix S dt = map (compress (sys_active S)) (compress (sys_active S) (implicit_matrix S dt))"

definition reduced_rhs :: "system \<Rightarrow> float64 \<Rightarrow> float64 list \<Rightarrow> float64 list \<Rightarrow> float64 list" where
  "reduced_rhs S dt FQ Phi_prev =
     map2 (+) (compress (sys_active S) (rhs_vector S dt FQ Phi_prev))
       (map2 (*) (map (\<lambda>c. c / dt) (compress (sys_active S) (sys_Cs S)))
          (compress (sys_active S) Phi_prev))"

definition time_step ::
  "solver \<Rightarrow> grid \<Rightarrow> system \<Rightarrow> float64 \<Rightarrow> float64 \<Rightarrow> float64 list \<Rightarrow> error + step_out" where
  "time_step spsolve gr S epsilon dt Phi_prev =
     (let nz = gr_nz gr; ny = gr_ny gr; nx = gr_nx gr;
          A = sys_A S; Cs = sys_Cs S;
          active = sys_active S; inact = sys_inact S; fxhd = sys_fxhd S
      in case bcast (gr_nod gr) (sys_FQ S) of
           Inl e \<Rightarrow> Inl e
         | Inr FQ \<Rightarrow>
             (case spsolve (reduced_matrix S dt) (reduced_rhs S dt FQ Phi_prev) of
                  None \<Rightarrow> Inl SolverError
                | Some y \<Rightarrow>
                    if length y \<noteq> length (filter id active)
                      then Inl (PyError ''ValueError: boolean index assignment'')
                    else
                      let Phi1 = mask_assign active (replicate (gr_nod gr) 0) y;
                          P = at3 ny nx Phi1;
                          Qv = dot A Phi1;
                          Qsv = map2 (*) (map (\<lambda>c. - c / dt) Cs) (map2 (-) Phi1 Phi_prev);
                          Qxv = tab3 nz ny (nx - 1)
                                  (\<lambda>k j i. - (P k j (i + 1) - P k j i) * at3 ny (nx - 1) (sys_Cx S) k j i);
                          Qyv = tab3 nz (ny - 1) nx
                                  (\<lambda>k j i. (P k (j + 1) i - P k j i) * at3 (ny - 1) nx (sys_Cy S) k j i);
                          Qzv = tab3 (nz - 1) ny nx
                                  (\<lambda>k j i. (P (k + 1) j i - P k j i) * at3 ny nx (sys_Cz S) k j i);
                          Phi2 = mask_copy active
                                   (map2 (+) Phi_prev (map (\<lambda>d. d / epsilon) (map2 (-) Phi1 Phi_prev))) Phi1;
                          Phi3 = mask_copy fxhd Phi_prev Phi2;
                          Phi4 = mask_fill inact NaN Phi3
                      in Inr \<lparr>st_Phi = Phi4, st_Q = Qv, st_Qs = Qsv,
                              st_Qx = Qxv, st_Qy = Qyv, st_Qz = Qzv\<rparr>))"

text \<open>
  Line 165: the loop over \<^verbatim>\<open>np.diff(t)\<close>, every pass starting from the head slice the
  pass before has finished. An exception ends the loop.
\<close>

fun time_loop ::
  "solver \<Rightarrow> grid \<Rightarrow> system \<Rightarrow> float64 \<Rightarrow> float64 list \<Rightarrow> float64 list \<Rightarrow> error + step_out list" where
  "time_loop spsolve gr S epsilon [] Phi_prev = Inr []"
| "time_loop spsolve gr S epsilon (dt # dts) Phi_prev =
     (case time_step spsolve gr S epsilon dt Phi_prev of
        Inl e \<Rightarrow> Inl e
      | Inr r \<Rightarrow>
          (case time_loop spsolve gr S epsilon dts (st_Phi r) of
             Inl e \<Rightarrow> Inl e
           | Inr rs \<Rightarrow> Inr (r # rs)))"

text \<open>\<^verbatim>\<open>np.diff(t)\<close>.\<close>

definition diff :: "float64 list \<Rightarrow> float64 list" where
  "diff t = map2 (\<lambda>b a. b - a) (tl t) t"

section \<open>The solver \<^verbatim>\<open>fdm3t\<close>\<close>

text \<open>
  The returned dictionary. The head and flow arrays are kept as one flat slice per time
  index; the reshape of lines 192 to 194 gives every slice the grid's shape and leaves
  the order of the elements as it is.
\<close>

record out =
  out_t :: "float64 list"
  Phi :: "float64 list list"
  Q :: "float64 list list"
  Qs :: "float64 list list"
  Qx :: "float64 list list"
  Qy :: "float64 list list"
  Qz :: "float64 list list"

text \<open>
  Lines 87 to 155: everything between the clamping of the conductivities and the loop.
  \<open>kx\<close>, \<open>ky\<close>, \<open>kz\<close> are the clamped conductivities. The reshape of the masks fails
  unless \<^verbatim>\<open>IBOUND\<close> has \<open>nod\<close> elements.
\<close>

definition build_system ::
  "grid \<Rightarrow> float64 list \<Rightarrow> float64 list \<Rightarrow> float64 list \<Rightarrow> float64 list \<Rightarrow> float64 list \<Rightarrow>
   int list \<Rightarrow> float64 \<Rightarrow> error + system" where
  "build_system gr kx ky kz Ss FQ IBOUND epsilon =
     (if length IBOUND \<noteq> gr_nod gr then Inl (PyError ''ValueError: cannot reshape array'')
      else
        let active = map (\<lambda>b. 0 < b) IBOUND;
            inact = map (\<lambda>b. b = 0) IBOUND;
            fxhd = map (\<lambda>b. b < 0) IBOUND
        in (case conductances gr (Fin (1/10)) inact kx ky kz of (Cx, Cy, Cz) \<Rightarrow>
             (let Cs = map2 (\<lambda>s v. s * v / epsilon) Ss (gr_Volume gr)
              in (case system_matrix gr Cx Cy Cz of
                  Inl e \<Rightarrow> Inl e
                | Inr A \<Rightarrow>
                    Inr \<lparr>sys_A = A, sys_Cs = Cs, sys_FQ = FQ,
                         sys_active = active, sys_inact = inact, sys_fxhd = fxhd,
                         sys_Cx = Cx, sys_Cy = Cy, sys_Cz = Cz\<rparr>))))"

text \<open>
  Lines 87 to 196 on the clamped conductivities: the system, the allocation of the
  output arrays (which fails for an empty time vector and for a grid without cells along
  an axis, the dimensions being negative), the first head slice and the loop.
\<close>

definition fdm3t_compute ::
  "solver \<Rightarrow> grid \<Rightarrow> float64 list \<Rightarrow> float64 list \<Rightarrow> float64 list \<Rightarrow> float64 list \<Rightarrow>
   float64 list \<Rightarrow> float64 list \<Rightarrow> float64 list \<Rightarrow> int list \<Rightarrow> float64 \<Rightarrow> error + out" where
  "fdm3t_compute spsolve gr t kx ky kz Ss FQ HI IBOUND epsilon =
     (case build_system gr kx ky kz Ss FQ IBOUND epsilon of
        Inl e \<Rightarrow> Inl e
      | Inr S \<Rightarrow>
          if t = [] \<or> gr_nx gr = 0 \<or> gr_ny gr = 0 \<or> gr_nz gr = 0
            then Inl (PyError ''ValueError: negative dimensions are not allowed'')
          else
            (case bcast (gr_nod gr) HI of
               Inl e \<Rightarrow> Inl e
             | Inr Phi0 \<Rightarrow>
                 (case time_loop spsolve gr S epsilon (diff t) Phi0 of
                    Inl e \<Rightarrow> Inl e
                  | Inr rs \<Rightarrow>
                      Inr \<lparr>out_t = t, Phi = Phi0 # map st_Phi rs, Q = map st_Q rs,
                           Qs = map st_Qs rs, Qx = map st_Qx rs, Qy = map st_Qy rs,
                           Qz = map st_Qz rs\<rparr>)))"

text \<open>
  \<^verbatim>\<open>fdm3t(gr, t, kxyz, Ss, FQ, HI, IBOUND, epsilon)\<close> on the values of its arguments.
  The conductivities are clamped in the caller's arrays; that effect is the subject of
  \<open>fdm3t_call\<close> below, the result only needs the clamped values.
\<close>

definition fdm3t ::
  "solver \<Rightarrow> grid \<Rightarrow> float64 list \<Rightarrow> kxyz \<Rightarrow> float64 ndarray \<Rightarrow> float64 ndarray \<Rightarrow>
   float64 ndarray \<Rightarrow> int ndarray \<Rightarrow> float64 \<Rightarrow> error + out" where
  "fdm3t spsolve gr t kxyz Ss FQ HI IBOUND epsilon =
     (case unpack_kxyz kxyz of
        Inl e \<Rightarrow> Inl e
      | Inr (kx, ky, kz) \<Rightarrow>
          (case check_shapes gr kx ky kz Ss of
             Inl e \<Rightarrow> Inl e
           | Inr _ \<Rightarrow>
               fdm3t_compute spsolve gr t (clamp_k (data kx)) (clamp_k (data ky)) (clamp_k (data kz))
                 (data Ss) (data FQ) (data HI) (data IBOUND) epsilon))"

section \<open>The class constructor \<^verbatim>\<open>Fdm3t.__init__\<close>\<close>

text \<open>Lines 250 to 262: the horizontal and the vertical conductivity.\<close>

definition init_kxyz :: "kxyz \<Rightarrow> error + (float64 ndarray \<times> float64 ndarray)" where
  "init_kxyz kxyz =
     (let of_seq = (\<lambda>ks. case ks of
                       [Kh, _, Kv] \<Rightarrow> Inr (Kh, Kv)
                     | [Kh, Kv] \<Rightarrow> Inr (Kh, Kv)
                     | [Kh] \<Rightarrow> Inr (Kh, Kh)
                     | _ \<Rightarrow> Inl (ValueError ''Can't understand input kxyz, use (Kx, Kz) tuple''))
      in case kxyz of
           KTuple ks \<Rightarrow> of_seq ks
         | KList ks \<Rightarrow> of_seq ks
         | KArray k \<Rightarrow> Inr (k, k))"

text \<open>
  Lines 264 to 283: five assertions, then the run of the model, whose result is stored
  in \<^verbatim>\<open>self.out\<close>. The fourth assertion compares the shape of \<^verbatim>\<open>Ss\<close> and carries a
  message about \<^verbatim>\<open>HI\<close>. The argument \<open>epsilon\<close> is the constructor's parameter.
\<close>

definition Fdm3t_init ::
  "solver \<Rightarrow> grid \<Rightarrow> float64 list \<Rightarrow> kxyz \<Rightarrow> float64 ndarray \<Rightarrow> float64 ndarray \<Rightarrow>
   float64 ndarray \<Rightarrow> int ndarray \<Rightarrow> float64 \<Rightarrow> error + out" where
  "Fdm3t_init spsolve gr t kxyz Ss FQ HI IBOUND epsilon =
     (case init_kxyz kxyz of
        Inl e \<Rightarrow> Inl e
      | Inr (Kh, Kv) \<Rightarrow>
          if gr_shape gr \<noteq> shape Kh then Inl (AssertFailed ''gr.shape != Kh.shape'')
          else if gr_shape gr \<noteq> shape Kv then Inl (AssertFailed ''gr.shape != Kv.shape'')
          else if gr_shape gr \<noteq> shape FQ then Inl (AssertFailed ''gr.shape != FQ.shape'')
          else if gr_shape gr \<noteq> shape Ss then Inl (AssertFailed ''gr.shape != HI.shape'')
          else if gr_shape gr \<noteq> shape IBOUND then Inl (AssertFailed ''gr.shape != IBOUND.shape'')
          else fdm3t spsolve gr t (KTuple [Kh, Kh, Kv]) Ss FQ HI IBOUND (Fin 1))"

section \<open>The call on the caller's arrays\<close>

text \<open>
  Python passes arrays by reference, and lines 83 to 85 write into the arrays the caller
  passed. A store maps the address of every float array to its present value; the
  arguments of the call are addresses. \<^verbatim>\<open>IBOUND\<close>, an integer array the function only
  reads, the time vector and the grid are passed as values.
\<close>

type_synonym addr = nat
type_synonym store = "addr \<Rightarrow> float64 ndarray"

datatype kxyz_ref = RTuple "addr list" | RList "addr list" | RArray addr

definition unpack_ref :: "kxyz_ref \<Rightarrow> error + (addr \<times> addr \<times> addr)" where
  "unpack_ref kxyz =
     (case kxyz of
        RTuple [kx, ky, kz] \<Rightarrow> Inr (kx, ky, kz)
      | RTuple _ \<Rightarrow> Inl (PyError ''ValueError: unpack'')
      | RList _ \<Rightarrow> Inl (PyError ''AttributeError: shape'')
      | RArray k \<Rightarrow> Inr (k, k, k))"

text \<open>\<^verbatim>\<open>k[k < 1e-20] = 1e-20\<close> on the array at address \<open>a\<close>.\<close>

definition clamp_at :: "store \<Rightarrow> addr \<Rightarrow> store" where
  "clamp_at st a = st(a := (st a)\<lparr>data := clamp_k (data (st a))\<rparr>)"

text \<open>
  The call: the result, and the store it leaves. The three assignments of lines 83 to 85
  run in order, each on the store the one before has left, and everything after reads
  the arrays as they are then.
\<close>

definition fdm3t_call ::
  "solver \<Rightarrow> store \<Rightarrow> grid \<Rightarrow> float64 list \<Rightarrow> kxyz_ref \<Rightarrow> addr \<Rightarrow> addr \<Rightarrow> addr \<Rightarrow>
   int ndarray \<Rightarrow> float64 \<Rightarrow> (error + out) \<times> store" where
  "fdm3t_call spsolve st gr t kxyz Ss FQ HI IBOUND epsilon =
     (case unpack_ref kxyz of
        Inl e \<Rightarrow> (Inl e, st)
      | Inr (kx, ky, kz) \<Rightarrow>
          (case check_shapes gr (st kx) (st ky) (st kz) (st Ss) of
             Inl e \<Rightarrow> (Inl e, st)
           | Inr _ \<Rightarrow>
               let st1 = clamp_at st kx;
                   st2 = clamp_at st1 ky;
                   st3 = clamp_at st2 kz
               in (fdm3t_compute spsolve gr t (data (st3 kx)) (data (st3 ky)) (data (st3 kz))
                     (data (st3 Ss)) (data (st3 FQ)) (data (st3 HI)) (data IBOUND) epsilon,
                   st3)))"

text \<open>The value of a \<^verbatim>\<open>kxyz\<close> argument given by reference.\<close>

definition deref_kxyz :: "store \<Rightarrow> kxyz_ref \<Rightarrow> kxyz" where
  "deref_kxyz st kxyz =
     (case kxyz of
        RTuple ks \<Rightarrow> KTuple (map st ks)
      | RList ks \<Rightarrow> KList (map st ks)
      | RArray k \<Rightarrow> KArray (st k))"

section \<open>A grid of two cells\<close>

text \<open>
  Two unit cubes side by side along x, numbered 0 and 1, used to run the model: the
  boundaries are at 0, 1 and 2, the centres at 1/2 and 3/2. \<open>grid2_axial\<close> is the same
  row of cells read as two rings around the axis.
\<close>

definition grid2 :: grid where
  "grid2 = \<lparr>gr_axial = False, gr_nx = 2, gr_ny = 1, gr_nz = 1,
            gr_dx = [Fin 1, Fin 1], gr_dy = [Fin 1], gr_DZ = [Fin 1, Fin 1],
            gr_x = [Fin 0, Fin 1, Fin 2], gr_xm = [Fin (1/2), Fin (3/2)],
            gr_Volume = [Fin 1, Fin 1], gr_NOD = [0, 1]\<rparr>"

definition grid2_axial :: grid where
  "grid2_axial = grid2\<lparr>gr_axial := True\<rparr>"

definition arr2 :: "'a \<Rightarrow> 'a \<Rightarrow> 'a ndarray" where
  "arr2 a b = \<lparr>shape = [1, 1, 2], data = [a, b]\<rparr>"

text \<open>
  A direct solver for a system with one unknown: the right-hand side over the only entry
  of the matrix. It raises on any other system.
\<close>

definition spsolve1 :: solver where
  "spsolve1 M b = (case (M, b) of ([[m]], [r]) \<Rightarrow> Some [r / m] | _ \<Rightarrow> None)"

definition ones2 :: "float64 ndarray" where
  "ones2 = arr2 (Fin 1) (Fin 1)"

definition zeros2 :: "float64 ndarray" where
  "zeros2 = arr2 (Fin 0) (Fin 0)"

text \<open>
  The solver on the two cells with unit conductivities, no sources and storage \<open>Ss\<close>,
  fully implicit, from the heads \<open>HI\<close> over the times \<open>t\<close>.
\<close>

definition run2 :: "float64 ndarray \<Rightarrow> float64 list \<Rightarrow> float64 ndarray \<Rightarrow> int ndarray \<Rightarrow> error + out" where
  "run2 Ss t HI IBOUND = fdm3t spsolve1 grid2 t (KArray ones2) Ss zeros2 HI IBOUND (Fin 1)"

text \<open>Initial heads for the two cells given as a flat vector: the shape is not the grid's.\<close>

definition HI_flat :: "float64 ndarray" where
  "HI_flat = \<lparr>shape = [2], data = [Fin 0, Fin 1]\<rparr>"

text \<open>
  A store for a call on the two cells: address 0 holds a conductivity array with a zero
  and a negative entry, address 1 the storage coefficients, 2 the sources, 3 the heads.
\<close>

definition store2 :: store where
  "store2 = (\<lambda>a. zeros2)(0 := arr2 (Fin 0) (Fin (-3)), 1 := ones2, 3 := arr2 (Fin 0) (Fin 1))"

text \<open>
  What the solver needs of a grid: cells along every axis, one volume and one node
  number per cell, and node numbers that are cell indices.
\<close>

definition wf_grid :: "grid \<Rightarrow> bool" where
  "wf_grid gr =
     (0 < gr_nx gr \<and> 0 < gr_ny gr \<and> 0 < gr_nz gr \<and>
      length (gr_Volume gr) = gr_nod gr \<and> length (gr_NOD gr) = gr_nod gr \<and>
      list_all (\<lambda>n. n < gr_nod gr) (gr_NOD gr))"

text \<open>
  The sum of all the conductances that the six blocks of line 138 to 140 enter at row
  \<open>i\<close>, column \<open>j\<close>: the conductance between the cells \<open>i\<close> and \<open>j\<close>, whatever the
  number of faces that join them.
\<close>

definition pair_conductance ::
  "grid \<Rightarrow> float64 list \<Rightarrow> float64 list \<Rightarrow> float64 list \<Rightarrow> nat \<Rightarrow> nat \<Rightarrow> float64" where
  "pair_conductance gr Cx Cy Cz i j =
     (case assemble_coo gr Cx Cy Cz of (dat, rows, cols) \<Rightarrow> coo_entry dat rows cols i j)"

section \<open>Shapes of matrices\<close>

definition square :: "nat \<Rightarrow> matrix \<Rightarrow> bool" where
  "square n M = (length M = n \<and> list_all (\<lambda>row. length row = n) M)"

section \<open>Comparing up to a tolerance\<close>

text \<open>
  Two finite numbers are close when they differ by at most the relative tolerance
  \<open>tol\<close>; nothing is close to an infinity or to NaN.
\<close>

definition close_to :: "real \<Rightarrow> float64 \<Rightarrow> float64 \<Rightarrow> bool" where
  "close_to tol a b =
     (case (a, b) of
        (Fin x, Fin y) \<Rightarrow> \<bar>x - y\<bar> \<le> tol * max \<bar>x\<bar> \<bar>y\<bar>
      | _ \<Rightarrow> False)"

section \<open>Flows of a cell\<close>

text \<open>
  Lines 127 to 132: the six arrays of neighbour numbers, slices of \<^verbatim>\<open>gr.NOD\<close>. Face
  \<open>p\<close> of the x family lies between the cells \<open>IW ! p\<close> and \<open>IE ! p\<close>, of the y family between
  \<open>IN ! p\<close> and \<open>IS ! p\<close>, of the z family between \<open>IT ! p\<close> and \<open>IB ! p\<close>.
\<close>

definition neighbours :: "grid \<Rightarrow> nat list \<times> nat list \<times> nat list \<times> nat list \<times> nat list \<times> nat list" where
  "neighbours gr =
     (let nz = gr_nz gr; ny = gr_ny gr; nx = gr_nx gr; N = at3 ny nx (gr_NOD gr)
      in (tab3 nz ny (nx - 1) (\<lambda>k j i. N k j i),
          tab3 nz ny (nx - 1) (\<lambda>k j i. N k j (i + 1)),
          tab3 nz (ny - 1) nx (\<lambda>k j i. N k j i),
          tab3 nz (ny - 1) nx (\<lambda>k j i. N k (j + 1) i),
          tab3 (nz - 1) ny nx (\<lambda>k j i. N k j i),
          tab3 (nz - 1) ny nx (\<lambda>k j i. N (k + 1) j i)))"

text \<open>
  The flow of the faces that have the cell \<open>c\<close> on the side \<open>I\<close>, and the net flow that leaves
  a cell through its faces: \<^verbatim>\<open>Qx\<close> runs from west to east (line 182, minus the difference
  along the last axis), \<^verbatim>\<open>Qy\<close> from south to north and \<^verbatim>\<open>Qz\<close> from bottom to top (lines 183
  and 184, the difference along the axis).
\<close>

definition leaving :: "nat list \<Rightarrow> float64 list \<Rightarrow> nat \<Rightarrow> float64" where
  "leaving I Qf c = fsum (compress (map (\<lambda>n. n = c) I) Qf)"

definition face_outflow :: "grid \<Rightarrow> float64 list \<Rightarrow> float64 list \<Rightarrow> float64 list \<Rightarrow> nat \<Rightarrow> float64" where
  "face_outflow gr qx qy qz c =
     (case neighbours gr of (IW, IE, IN, IS, IT, IB) \<Rightarrow>
        leaving IW qx c - leaving IE qx c + leaving IS qy c - leaving IN qy c
          + leaving IB qz c - leaving IT qz c)"

text \<open>
  A solver that, on the system \<open>M y = b\<close>, returns a finite vector that solves it.
\<close>

definition solved_exactly :: "solver \<Rightarrow> matrix \<Rightarrow> float64 list \<Rightarrow> bool" where
  "solved_exactly spsolve M b =
     (case spsolve M b of None \<Rightarrow> False | Some y \<Rightarrow> dot M y = b \<and> list_all is_fin y)"

section \<open>Basic facts\<close>

lemmas float64_ops =
  zero_float64_def one_float64_def plus_float64_def uminus_float64_def minus_float64_def
  times_float64_def divide_float64_def less_float64_def inverse_float64_def signed_inf_def

lemma upt_0_2: "[0..<2] = [0, Suc 0]"
  by (simp add: upt_conv_Cons)

lemma tab3_grid_2 [simp]: "tab3 (Suc 0) (Suc 0) 2 f = [f 0 0 0, f 0 0 1]"
  by (simp add: tab3_def upt_0_2)

lemma tab3_grid_1 [simp]: "tab3 (Suc 0) (Suc 0) (Suc 0) f = [f 0 0 0]"
  by (simp add: tab3_def)

lemma tab3_empty [simp]: "tab3 0 b c f = []" "tab3 a 0 c f = []" "tab3 a b 0 f = []"
  by (simp_all add: tab3_def)

lemma length_tab3 [simp]: "length (tab3 n0 n1 n2 f) = n0 * n1 * n2"
  by (simp add: tab3_def)

lemma length_mask_assign [simp]: "length (mask_assign ms xs ys) = length xs"
  by (induction ms xs ys rule: mask_assign.induct) simp_all

lemma length_mask_copy [simp]:
  "length (mask_copy ms w v) = min (length ms) (min (length w) (length v))"
  by (simp add: mask_copy_def)

lemma length_mask_fill [simp]: "length (mask_fill ms c v) = min (length ms) (length v)"
  by (simp add: mask_fill_def)

lemma nth_mask_copy:
  "i < length ms \<Longrightarrow> i < length w \<Longrightarrow> i < length v \<Longrightarrow>
   mask_copy ms w v ! i = (if ms ! i then w ! i else v ! i)"
  by (simp add: mask_copy_def)

lemma nth_mask_fill:
  "i < length ms \<Longrightarrow> i < length v \<Longrightarrow> mask_fill ms c v ! i = (if ms ! i then c else v ! i)"
  by (simp add: mask_fill_def)

lemma clamp_k_idem [simp]: "clamp_k (clamp_k k) = clamp_k k"
  by (simp add: clamp_k_def k_floor_def float64_ops)

lemma length_clamp_k [simp]: "length (clamp_k k) = length k"
  by (simp add: clamp_k_def)

section \<open>The heads of one pass and of the loop\<close>

text \<open>
  One pass leaves a head slice of \<open>nod\<close> elements, NaN at the cells the inactive mask
  selects, and the previous head at the cells the fixed-head mask selects and the
  inactive mask does not.
\<close>

lemma time_step_heads:
  assumes step: "time_step spsolve gr S epsilon dt Phi_prev = Inr r"
    and len: "length Phi_prev = gr_nod gr" "length (sys_active S) = gr_nod gr"
      "length (sys_inact S) = gr_nod gr" "length (sys_fxhd S) = gr_nod gr"
  shows "length (st_Phi r) = gr_nod gr"
    and "c < gr_nod gr \<Longrightarrow> sys_inact S ! c \<Longrightarrow> st_Phi r ! c = NaN"
    and "c < gr_nod gr \<Longrightarrow> sys_fxhd S ! c \<Longrightarrow> \<not> sys_inact S ! c \<Longrightarrow> st_Phi r ! c = Phi_prev ! c"
  using step len
  by (auto simp: time_step_def Let_def nth_mask_fill nth_mask_copy
      split: sum.splits option.splits if_splits)

lemma time_loop_heads:
  assumes "time_loop spsolve gr S epsilon dts P0 = Inr rs"
    and "length P0 = gr_nod gr" "length (sys_active S) = gr_nod gr"
      "length (sys_inact S) = gr_nod gr" "length (sys_fxhd S) = gr_nod gr"
    and "r \<in> set rs" "c < gr_nod gr"
  shows "length (st_Phi r) = gr_nod gr \<and>
         (sys_inact S ! c \<longrightarrow> st_Phi r ! c = NaN) \<and>
         (sys_fxhd S ! c \<and> \<not> sys_inact S ! c \<longrightarrow> st_Phi r ! c = P0 ! c)"
  using assms
proof (induction dts arbitrary: P0 rs)
  case Nil
  then show ?case by simp
next
  case (Cons dt dts)
  from Cons.prems(1) obtain r1 rs1
    where s1: "time_step spsolve gr S epsilon dt P0 = Inr r1"
      and l1: "time_loop spsolve gr S epsilon dts (st_Phi r1) = Inr rs1"
      and rs: "rs = r1 # rs1"
    by (auto split: sum.splits)
  note hd = time_step_heads[OF s1 Cons.prems(2-5)]
  show ?case
  proof (cases "r = r1")
    case True
    then show ?thesis using hd Cons.prems(7) by simp
  next
    case False
    then have "r \<in> set rs1" using Cons.prems(6) rs by simp
    from Cons.IH[OF l1 hd(1) Cons.prems(3-5) this Cons.prems(7)]
    show ?thesis using hd(3)[OF Cons.prems(7)] by auto
  qed
qed

lemma build_system_masks:
  assumes "build_system gr kx ky kz Ss FQ IBOUND epsilon = Inr S"
  shows "length IBOUND = gr_nod gr"
    and "sys_active S = map (\<lambda>b. 0 < b) IBOUND"
    and "sys_inact S = map (\<lambda>b. b = 0) IBOUND"
    and "sys_fxhd S = map (\<lambda>b. b < 0) IBOUND"
  using assms
  by (auto simp: build_system_def Let_def split: if_splits prod.splits sum.splits)

lemma fdm3t_Inr:
  assumes "fdm3t spsolve gr t kxyz Ss FQ HI IBOUND epsilon = Inr out"
  obtains kx ky kz S Phi0 rs where
    "unpack_kxyz kxyz = Inr (kx, ky, kz)"
    "check_shapes gr kx ky kz Ss = Inr ()"
    "build_system gr (clamp_k (data kx)) (clamp_k (data ky)) (clamp_k (data kz))
       (data Ss) (data FQ) (data IBOUND) epsilon = Inr S"
    "t \<noteq> []"
    "bcast (gr_nod gr) (data HI) = Inr Phi0"
    "time_loop spsolve gr S epsilon (diff t) Phi0 = Inr rs"
    "Phi out = Phi0 # map st_Phi rs" "Q out = map st_Q rs" "Qs out = map st_Qs rs"
    "Qx out = map st_Qx rs" "Qy out = map st_Qy rs" "Qz out = map st_Qz rs"
  using assms
  by (auto simp: fdm3t_def fdm3t_compute_def split: sum.splits prod.splits if_splits)

lemma bcast_same: "length v = n \<Longrightarrow> bcast n v = Inr v"
  by (simp add: bcast_def)

lemma bcast_length: "bcast n v = Inr w \<Longrightarrow> length w = n"
  by (auto simp: bcast_def split: if_splits)

section \<open>Runs on the two cells\<close>

lemma resistances_grid2:
  "resistances grid2 p [Fin 1, Fin 1] [Fin 1, Fin 1] [Fin 1, Fin 1] =
     ([Fin (1/2), Fin (1/2)], [Fin (1/2), Fin (1/2)], [Fin (1/2), Fin (1/2)], [Fin (1/2), Fin (1/2)])"
  by (simp add: resistances_def grid2_def at3_def float64_ops Let_def)

lemma conductances_grid2:
  "conductances grid2 p [False, False] [Fin 1, Fin 1] [Fin 1, Fin 1] [Fin 1, Fin 1] = ([Fin 1], [], [])"
  by (simp add: conductances_def resistances_grid2 mask_fill_def at3_def float64_ops)
     (simp add: grid2_def)

lemma conductances_grid2_inact:
  "conductances grid2 p [True, False] [Fin 1, Fin 1] [Fin 1, Fin 1] [Fin 1, Fin 1] = ([Fin 0], [], [])"
  by (simp add: conductances_def resistances_grid2 mask_fill_def at3_def float64_ops)
     (simp add: grid2_def)

lemma system_matrix_grid2:
  "system_matrix grid2 [Fin 1] [] [] = Inr [[Fin 1, Fin (-1)], [Fin (-1), Fin 1]]"
  apply (simp add: system_matrix_def assemble_coo_def grid2_def at3_def gr_nod_def csc_matrix_def)
  apply (simp add: coo_entry_def add_diagonal_def mat_neg_def mat_add_def diags_def row_sums_def
      fsum_def float64_ops upt_0_2)
  done

lemma system_matrix_grid2_inact:
  "system_matrix grid2 [Fin 0] [] [] = Inr [[Fin 0, Fin 0], [Fin 0, Fin 0]]"
  apply (simp add: system_matrix_def assemble_coo_def grid2_def at3_def gr_nod_def csc_matrix_def)
  apply (simp add: coo_entry_def add_diagonal_def mat_neg_def mat_add_def diags_def row_sums_def
      fsum_def float64_ops upt_0_2)
  done

lemma build_system_grid2:
  "build_system grid2 [Fin 1, Fin 1] [Fin 1, Fin 1] [Fin 1, Fin 1] [Fin s, Fin s] [Fin 0, Fin 0]
     [-1, 1] (Fin 1) =
   Inr \<lparr>sys_A = [[Fin 1, Fin (-1)], [Fin (-1), Fin 1]], sys_Cs = [Fin s, Fin s],
        sys_FQ = [Fin 0, Fin 0], sys_active = [False, True], sys_inact = [False, False],
        sys_fxhd = [True, False], sys_Cx = [Fin 1], sys_Cy = [], sys_Cz = []\<rparr>"
  apply (simp add: build_system_def conductances_grid2 system_matrix_grid2)
  apply (simp add: grid2_def gr_nod_def float64_ops)
  done

lemma build_system_grid2_inact:
  "build_system grid2 [Fin 1, Fin 1] [Fin 1, Fin 1] [Fin 1, Fin 1] [Fin 1, Fin 1] [Fin 0, Fin 0]
     [0, 1] (Fin 1) =
   Inr \<lparr>sys_A = [[Fin 0, Fin 0], [Fin 0, Fin 0]], sys_Cs = [Fin 1, Fin 1],
        sys_FQ = [Fin 0, Fin 0], sys_active = [False, True], sys_inact = [True, False],
        sys_fxhd = [False, False], sys_Cx = [Fin 0], sys_Cy = [], sys_Cz = []\<rparr>"
  apply (simp add: build_system_def conductances_grid2_inact system_matrix_grid2_inact)
  apply (simp add: grid2_def gr_nod_def float64_ops)
  done

lemmas step_defs =
  time_step_def implicit_matrix_def rhs_vector_def reduced_matrix_def reduced_rhs_def
  Let_def bcast_def mat_add_def diags_def compress_def dot_def fsum_def
  spsolve1_def upt_0_2 mask_copy_def mask_fill_def at3_def gr_nod_def grid2_def float64_ops
  numeral_2_eq_2

lemma step_grid2_a:
  "time_step spsolve1 grid2
     \<lparr>sys_A = [[Fin 1, Fin (-1)], [Fin (-1), Fin 1]], sys_Cs = [Fin 1, Fin 1],
      sys_FQ = [Fin 0, Fin 0], sys_active = [False, True], sys_inact = [False, False],
      sys_fxhd = [True, False], sys_Cx = [Fin 1], sys_Cy = [], sys_Cz = []\<rparr>
     (Fin 1) (Fin 1) [Fin 0, Fin 1] =
   Inr \<lparr>st_Phi = [Fin 0, Fin (1/2)], st_Q = [Fin (-1/2), Fin (1/2)], st_Qs = [Fin 0, Fin (1/2)],
        st_Qx = [Fin (-1/2)], st_Qy = [], st_Qz = []\<rparr>"
  by (simp add: step_defs)

lemma step_grid2_b:
  "time_step spsolve1 grid2
     \<lparr>sys_A = [[Fin 1, Fin (-1)], [Fin (-1), Fin 1]], sys_Cs = [Fin 1, Fin 1],
      sys_FQ = [Fin 0, Fin 0], sys_active = [False, True], sys_inact = [False, False],
      sys_fxhd = [True, False], sys_Cx = [Fin 1], sys_Cy = [], sys_Cz = []\<rparr>
     (Fin 1) (Fin 1) [Fin 0, Fin (1/2)] =
   Inr \<lparr>st_Phi = [Fin 0, Fin (1/4)], st_Q = [Fin (-1/4), Fin (1/4)], st_Qs = [Fin 0, Fin (1/4)],
        st_Qx = [Fin (-1/4)], st_Qy = [], st_Qz = []\<rparr>"
  by (simp add: step_defs)

lemma step_grid2_c:
  "time_step spsolve1 grid2
     \<lparr>sys_A = [[Fin 1, Fin (-1)], [Fin (-1), Fin 1]], sys_Cs = [Fin 1, Fin 1],
      sys_FQ = [Fin 0, Fin 0], sys_active = [False, True], sys_inact = [False, False],
      sys_fxhd = [True, False], sys_Cx = [Fin 1], sys_Cy = [], sys_Cz = []\<rparr>
     (Fin 1) (Fin 2) [Fin 0, Fin 1] =
   Inr \<lparr>st_Phi = [Fin 0, Fin (1/3)], st_Q = [Fin (-1/3), Fin (1/3)], st_Qs = [Fin 0, Fin (1/3)],
        st_Qx = [Fin (-1/3)], st_Qy = [], st_Qz = []\<rparr>"
  by (simp add: step_defs)

lemma step_grid2_back:
  "time_step spsolve1 grid2
     \<lparr>sys_A = [[Fin 1, Fin (-1)], [Fin (-1), Fin 1]], sys_Cs = [Fin 2, Fin 2],
      sys_FQ = [Fin 0, Fin 0], sys_active = [False, True], sys_inact = [False, False],
      sys_fxhd = [True, False], sys_Cx = [Fin 1], sys_Cy = [], sys_Cz = []\<rparr>
     (Fin 1) (Fin (-1)) [Fin 0, Fin 1] =
   Inr \<lparr>st_Phi = [Fin 0, Fin 2], st_Q = [Fin (-2), Fin 2], st_Qs = [Fin 0, Fin 2],
        st_Qx = [Fin (-2)], st_Qy = [], st_Qz = []\<rparr>"
  by (simp add: step_defs)

lemma step_grid2_inact:
  "time_step spsolve1 grid2
     \<lparr>sys_A = [[Fin 0, Fin 0], [Fin 0, Fin 0]], sys_Cs = [Fin 1, Fin 1],
      sys_FQ = [Fin 0, Fin 0], sys_active = [False, True], sys_inact = [True, False],
      sys_fxhd = [False, False], sys_Cx = [Fin 0], sys_Cy = [], sys_Cz = []\<rparr>
     (Fin 1) (Fin 1) [Fin 5, Fin 1] =
   Inr \<lparr>st_Phi = [NaN, Fin 1], st_Q = [Fin 0, Fin 0], st_Qs = [Fin 5, Fin 0],
        st_Qx = [Fin 0], st_Qy = [], st_Qz = []\<rparr>"
  by (simp add: step_defs)

lemma grid2_dims [simp]:
  "gr_nx grid2 = 2" "gr_ny grid2 = 1" "gr_nz grid2 = 1" "gr_nod grid2 = 2"
  "gr_shape grid2 = [1, 1, 2]"
  by (simp_all add: grid2_def gr_nod_def gr_shape_def)

lemma bcast_2 [simp]: "bcast 2 [a, b] = Inr [a, b]"
  by (simp add: bcast_def)

lemma run2_compute:
  "run2 (arr2 (Fin s) (Fin s)) t (arr2 h0 h1) (arr2 b0 b1) =
   fdm3t_compute spsolve1 grid2 t [Fin 1, Fin 1] [Fin 1, Fin 1] [Fin 1, Fin 1] [Fin s, Fin s]
     [Fin 0, Fin 0] [h0, h1] [b0, b1] (Fin 1)"
  by (simp add: run2_def fdm3t_def unpack_kxyz_def check_shapes_def ones2_def zeros2_def arr2_def
      clamp_k_def k_floor_def float64_ops)

lemma run2_two_steps:
  "run2 ones2 [Fin 0, Fin 1, Fin 2] (arr2 (Fin 0) (Fin 1)) (arr2 (-1) 1) =
   Inr \<lparr>out_t = [Fin 0, Fin 1, Fin 2],
        Phi = [[Fin 0, Fin 1], [Fin 0, Fin (1/2)], [Fin 0, Fin (1/4)]],
        Q = [[Fin (-1/2), Fin (1/2)], [Fin (-1/4), Fin (1/4)]],
        Qs = [[Fin 0, Fin (1/2)], [Fin 0, Fin (1/4)]],
        Qx = [[Fin (-1/2)], [Fin (-1/4)]], Qy = [[], []], Qz = [[], []]\<rparr>"
  unfolding ones2_def run2_compute
  by (simp add: fdm3t_compute_def build_system_grid2 diff_def float64_ops
      step_grid2_a step_grid2_b)

lemma run2_one_step:
  "run2 ones2 [Fin 0, Fin 2] (arr2 (Fin 0) (Fin 1)) (arr2 (-1) 1) =
   Inr \<lparr>out_t = [Fin 0, Fin 2],
        Phi = [[Fin 0, Fin 1], [Fin 0, Fin (1/3)]],
        Q = [[Fin (-1/3), Fin (1/3)]],
        Qs = [[Fin 0, Fin (1/3)]],
        Qx = [[Fin (-1/3)]], Qy = [[]], Qz = [[]]\<rparr>"
  unfolding ones2_def run2_compute
  by (simp add: fdm3t_compute_def build_system_grid2 diff_def float64_ops step_grid2_c)

lemma run2_backwards:
  "run2 (arr2 (Fin 2) (Fin 2)) [Fin 1, Fin 0] (arr2 (Fin 0) (Fin 1)) (arr2 (-1) 1) =
   Inr \<lparr>out_t = [Fin 1, Fin 0],
        Phi = [[Fin 0, Fin 1], [Fin 0, Fin 2]],
        Q = [[Fin (-2), Fin 2]],
        Qs = [[Fin 0, Fin 2]],
        Qx = [[Fin (-2)]], Qy = [[]], Qz = [[]]\<rparr>"
  unfolding run2_compute
  by (simp add: fdm3t_compute_def build_system_grid2 diff_def float64_ops step_grid2_back)

lemma run2_single_time:
  "run2 ones2 [Fin 0] (arr2 (Fin 0) (Fin 1)) (arr2 (-1) 1) =
   Inr \<lparr>out_t = [Fin 0], Phi = [[Fin 0, Fin 1]], Q = [], Qs = [], Qx = [], Qy = [], Qz = []\<rparr>"
  unfolding ones2_def run2_compute
  by (simp add: fdm3t_compute_def build_system_grid2 diff_def)

lemma run2_inactive:
  "run2 ones2 [Fin 0, Fin 1] (arr2 (Fin 5) (Fin 1)) (arr2 0 1) =
   Inr \<lparr>out_t = [Fin 0, Fin 1],
        Phi = [[Fin 5, Fin 1], [NaN, Fin 1]],
        Q = [[Fin 0, Fin 0]],
        Qs = [[Fin 5, Fin 0]],
        Qx = [[Fin 0]], Qy = [[]], Qz = [[]]\<rparr>"
  unfolding ones2_def run2_compute
  by (simp add: fdm3t_compute_def build_system_grid2_inact diff_def float64_ops step_grid2_inact)

section \<open>Fixed and inactive cells\<close>

lemma fdm3t_heads:
  assumes run: "fdm3t spsolve gr t kxyz Ss FQ HI IBOUND epsilon = Inr out"
    and it: "it < length (Phi out)" and c: "c < gr_nod gr"
  shows "0 < it \<Longrightarrow> data IBOUND ! c = 0 \<Longrightarrow> Phi out ! it ! c = NaN"
    and "data IBOUND ! c < 0 \<Longrightarrow> Phi out ! it ! c = Phi out ! 0 ! c"
    and "length (data HI) = gr_nod gr \<Longrightarrow> Phi out ! 0 = data HI"
proof -
  from run obtain kx ky kz :: "float64 ndarray" and S Phi0 rs where
    sys: "build_system gr (clamp_k (data kx)) (clamp_k (data ky)) (clamp_k (data kz))
            (data Ss) (data FQ) (data IBOUND) epsilon = Inr S"
    and b: "bcast (gr_nod gr) (data HI) = Inr Phi0"
    and loop: "time_loop spsolve gr S epsilon (diff t) Phi0 = Inr rs"
    and P: "Phi out = Phi0 # map st_Phi rs"
    by (elim fdm3t_Inr) blast
  note m = build_system_masks[OF sys]
  have l0: "length Phi0 = gr_nod gr" using b by (rule bcast_length)
  have lens: "length (sys_active S) = gr_nod gr" "length (sys_inact S) = gr_nod gr"
    "length (sys_fxhd S) = gr_nod gr"
    using m by simp_all
  have masks: "sys_inact S ! c = (data IBOUND ! c = 0)" "sys_fxhd S ! c = (data IBOUND ! c < 0)"
    using m c by simp_all
  show "length (data HI) = gr_nod gr \<Longrightarrow> Phi out ! 0 = data HI"
    using b P by (simp add: bcast_same)
  have later: "length (st_Phi r) = gr_nod gr \<and>
         (sys_inact S ! c \<longrightarrow> st_Phi r ! c = NaN) \<and>
         (sys_fxhd S ! c \<and> \<not> sys_inact S ! c \<longrightarrow> st_Phi r ! c = Phi0 ! c)"
    if "r \<in> set rs" for r
    using time_loop_heads[OF loop l0 lens that c] .
  show "0 < it \<Longrightarrow> data IBOUND ! c = 0 \<Longrightarrow> Phi out ! it ! c = NaN"
  proof -
    assume "0 < it" and z: "data IBOUND ! c = 0"
    then obtain n where n: "it = Suc n" by (cases it) auto
    with it P have "n < length rs" by simp
    then have "rs ! n \<in> set rs" by simp
    from later[OF this] masks z show ?thesis using n P \<open>n < length rs\<close> by simp
  qed
  show "data IBOUND ! c < 0 \<Longrightarrow> Phi out ! it ! c = Phi out ! 0 ! c"
  proof (cases it)
    case 0
    then show ?thesis by simp
  next
    case (Suc n)
    assume neg: "data IBOUND ! c < 0"
    from Suc it P have "n < length rs" by simp
    then have "rs ! n \<in> set rs" by simp
    from later[OF this] masks neg show ?thesis using Suc P \<open>n < length rs\<close> by simp
  qed
qed

text \<open>
  C2. In every result of the solver, the head of a cell with \<^verbatim>\<open>IBOUND < 0\<close> is, at
  every time index, the value \<^verbatim>\<open>HI\<close> has at that cell (\<^verbatim>\<open>HI\<close> holding one value per
  cell).
\<close>

theorem fixed_head_invariance:
  assumes "fdm3t spsolve gr t kxyz Ss FQ HI IBOUND epsilon = Inr out"
    and "length (data HI) = gr_nod gr"
    and "it < length (Phi out)" and "c < gr_nod gr" and "data IBOUND ! c < 0"
  shows "Phi out ! it ! c = data HI ! c"
  using fdm3t_heads(2)[OF assms(1,3,4,5)] fdm3t_heads(3)[OF assms(1,3,4,2)] by simp

theorem fixed_head_invariance_witness:
  "fdm3t spsolve1 grid2 [Fin 0, Fin 1, Fin 2] (KArray ones2) ones2 zeros2 (arr2 (Fin 0) (Fin 1))
     (arr2 (-1) 1) (Fin 1) =
   Inr \<lparr>out_t = [Fin 0, Fin 1, Fin 2],
        Phi = [[Fin 0, Fin 1], [Fin 0, Fin (1/2)], [Fin 0, Fin (1/4)]],
        Q = [[Fin (-1/2), Fin (1/2)], [Fin (-1/4), Fin (1/4)]],
        Qs = [[Fin 0, Fin (1/2)], [Fin 0, Fin (1/4)]],
        Qx = [[Fin (-1/2)], [Fin (-1/4)]], Qy = [[], []], Qz = [[], []]\<rparr> \<and>
   length (data (arr2 (Fin 0) (Fin 1))) = gr_nod grid2 \<and> (0::nat) < gr_nod grid2 \<and>
   data (arr2 (-1) (1::int)) ! 0 < 0 \<and>
   [[Fin 0, Fin 1], [Fin 0, Fin (1/2)], [Fin 0, Fin (1/4)]] ! 2 ! 0 = data (arr2 (Fin 0) (Fin 1)) ! 0"
proof -
  have r: "fdm3t spsolve1 grid2 [Fin 0, Fin 1, Fin 2] (KArray ones2) ones2 zeros2
      (arr2 (Fin 0) (Fin 1)) (arr2 (-1) 1) (Fin 1) =
    Inr \<lparr>out_t = [Fin 0, Fin 1, Fin 2],
        Phi = [[Fin 0, Fin 1], [Fin 0, Fin (1/2)], [Fin 0, Fin (1/4)]],
        Q = [[Fin (-1/2), Fin (1/2)], [Fin (-1/4), Fin (1/4)]],
        Qs = [[Fin 0, Fin (1/2)], [Fin 0, Fin (1/4)]],
        Qx = [[Fin (-1/2)], [Fin (-1/4)]], Qy = [[], []], Qz = [[], []]\<rparr>"
    using run2_two_steps by (simp add: run2_def)
  have h: "length (data (arr2 (Fin 0) (Fin 1))) = gr_nod grid2" "(0::nat) < gr_nod grid2"
    "data (arr2 (-1) (1::int)) ! 0 < 0"
    by (simp_all add: arr2_def)
  from fixed_head_invariance[OF r h(1) _ h(2) h(3), of 2] r h show ?thesis by simp
qed

text \<open>
  C3, as stated, fails at the first time index: \<^verbatim>\<open>Phi[0]\<close> is the array \<^verbatim>\<open>HI\<close> as the
  caller passed it (line 158), and the loop writes NaN from index 1 on only. In the run
  below cell 0 is inactive, and its head at index 0 is 5.
\<close>

theorem inactive_initial_head_counterexample:
  "data (arr2 (0::int) 1) ! 0 = 0 \<and>
   \<not> isl (fdm3t spsolve1 grid2 [Fin 0, Fin 1] (KArray ones2) ones2 zeros2
            (arr2 (Fin 5) (Fin 1)) (arr2 0 1) (Fin 1)) \<and>
   Phi (projr (fdm3t spsolve1 grid2 [Fin 0, Fin 1] (KArray ones2) ones2 zeros2
            (arr2 (Fin 5) (Fin 1)) (arr2 0 1) (Fin 1))) ! 0 ! 0 = Fin 5 \<and>
   Fin 5 \<noteq> NaN"
  using run2_inactive by (simp add: run2_def arr2_def)

text \<open>
  C3, amended. In every result of the solver, the head of a cell with \<^verbatim>\<open>IBOUND == 0\<close>
  is NaN at every time index from 1 on, and at index 0 it is the value \<^verbatim>\<open>HI\<close> has at
  that cell.
\<close>

theorem inactive_heads_nan_after_start:
  assumes "fdm3t spsolve gr t kxyz Ss FQ HI IBOUND epsilon = Inr out"
    and "length (data HI) = gr_nod gr"
    and "0 < it" and "it < length (Phi out)" and "c < gr_nod gr" and "data IBOUND ! c = 0"
  shows "Phi out ! it ! c = NaN \<and> Phi out ! 0 ! c = data HI ! c"
  using fdm3t_heads(1)[OF assms(1,4,5,3,6)] fdm3t_heads(3)[OF assms(1,4,5,2)] by simp

theorem inactive_heads_nan_after_start_witness:
  "fdm3t spsolve1 grid2 [Fin 0, Fin 1] (KArray ones2) ones2 zeros2 (arr2 (Fin 5) (Fin 1))
     (arr2 0 1) (Fin 1) =
   Inr \<lparr>out_t = [Fin 0, Fin 1], Phi = [[Fin 5, Fin 1], [NaN, Fin 1]], Q = [[Fin 0, Fin 0]],
        Qs = [[Fin 5, Fin 0]], Qx = [[Fin 0]], Qy = [[]], Qz = [[]]\<rparr> \<and>
   length (data (arr2 (Fin 5) (Fin 1))) = gr_nod grid2 \<and> (0::nat) < gr_nod grid2 \<and>
   data (arr2 (0::int) 1) ! 0 = 0 \<and>
   [[Fin 5, Fin 1], [NaN, Fin 1]] ! 1 ! 0 = NaN \<and>
   [[Fin 5, Fin 1], [NaN, Fin 1]] ! 0 ! 0 = data (arr2 (Fin 5) (Fin 1)) ! 0"
proof -
  have r: "fdm3t spsolve1 grid2 [Fin 0, Fin 1] (KArray ones2) ones2 zeros2
      (arr2 (Fin 5) (Fin 1)) (arr2 0 1) (Fin 1) =
    Inr \<lparr>out_t = [Fin 0, Fin 1], Phi = [[Fin 5, Fin 1], [NaN, Fin 1]], Q = [[Fin 0, Fin 0]],
        Qs = [[Fin 5, Fin 0]], Qx = [[Fin 0]], Qy = [[]], Qz = [[]]\<rparr>"
    using run2_inactive by (simp add: run2_def)
  have h: "length (data (arr2 (Fin 5) (Fin 1))) = gr_nod grid2" "(0::nat) < gr_nod grid2"
    "data (arr2 (0::int) 1) ! 0 = 0"
    by (simp_all add: arr2_def)
  from inactive_heads_nan_after_start[OF r h(1) _ _ h(2) h(3), of 1] r h show ?thesis by simp
qed

section \<open>The constructor's implicitness argument\<close>

text \<open>
  C9. The result the constructor stores does not depend on its argument \<open>epsilon\<close>: for
  any two values of it, all other arguments equal, \<^verbatim>\<open>self.out\<close> is the same, since the
  solver is always called with \<open>epsilon = 1.0\<close>.
\<close>

theorem Fdm3t_init_epsilon_unused:
  "Fdm3t_init spsolve gr t kxyz Ss FQ HI IBOUND e1 = Fdm3t_init spsolve gr t kxyz Ss FQ HI IBOUND e2"
  by (simp add: Fdm3t_init_def)

theorem Fdm3t_init_epsilon_unused_witness:
  "Fdm3t_init spsolve1 grid2 [Fin 0, Fin 1, Fin 2] (KArray ones2) ones2 zeros2 (arr2 (Fin 0) (Fin 1))
     (arr2 (-1) 1) (Fin (1/2)) =
   Fdm3t_init spsolve1 grid2 [Fin 0, Fin 1, Fin 2] (KArray ones2) ones2 zeros2 (arr2 (Fin 0) (Fin 1))
     (arr2 (-1) 1) (Fin 1)"
  by (rule Fdm3t_init_epsilon_unused)

lemma Fdm3t_init_runs_fully_implicit:
  assumes "init_kxyz kxyz = Inr (Kh, Kv)"
    and "shape Kh = gr_shape gr" "shape Kv = gr_shape gr" "shape FQ = gr_shape gr"
      "shape Ss = gr_shape gr" "shape IBOUND = gr_shape gr"
  shows "Fdm3t_init spsolve gr t kxyz Ss FQ HI IBOUND epsilon =
         fdm3t spsolve gr t (KTuple [Kh, Kh, Kv]) Ss FQ HI IBOUND (Fin 1)"
  using assms by (simp add: Fdm3t_init_def)

section \<open>The effect of a call on the caller's arrays\<close>

lemma clamp_at_apply:
  "clamp_at st a b = (if b = a then (st a)\<lparr>data := clamp_k (data (st a))\<rparr> else st b)"
  by (simp add: clamp_at_def)

lemma clamp_thrice:
  "clamp_at (clamp_at (clamp_at st kx) ky) kz a =
     (if a \<in> {kx, ky, kz} then (st a)\<lparr>data := clamp_k (data (st a))\<rparr> else st a)"
  by (simp add: clamp_at_apply)

text \<open>A call that fails a check before line 83 leaves every array as it was.\<close>

lemma fdm3t_call_rejected:
  assumes "unpack_ref kxyz = Inl e \<or>
           (\<exists>kx ky kz. unpack_ref kxyz = Inr (kx, ky, kz) \<and>
              check_shapes gr (st kx) (st ky) (st kz) (st Ss) = Inl e)"
  shows "fdm3t_call spsolve st gr t kxyz Ss FQ HI IBOUND epsilon = (Inl e, st)"
  using assms by (auto simp: fdm3t_call_def)

text \<open>
  C10. A call that passes the unpacking and the shape checks leaves the store changed at
  the addresses of \<open>kx\<close>, \<open>ky\<close> and \<open>kz\<close> only: there every entry below \<open>1e-20\<close> is
  \<open>1e-20\<close> and every other entry is as before; every other array is as it was. When
  \<^verbatim>\<open>kxyz\<close> is a single array the three addresses are the same one.
\<close>

theorem fdm3t_call_clamps_in_place:
  assumes "unpack_ref kxyz = Inr (kx, ky, kz)"
    and "check_shapes gr (st kx) (st ky) (st kz) (st Ss) = Inr ()"
  shows "snd (fdm3t_call spsolve st gr t kxyz Ss FQ HI IBOUND epsilon) a =
           (if a \<in> {kx, ky, kz}
            then (st a)\<lparr>data := map (\<lambda>v. if v < k_floor then k_floor else v) (data (st a))\<rparr>
            else st a) \<and>
         (unpack_ref (RArray a) = Inr (a, a, a))"
  using assms clamp_thrice[of st kx ky kz a]
  by (simp add: fdm3t_call_def Let_def clamp_k_def unpack_ref_def)

theorem fdm3t_call_clamps_in_place_witness:
  "unpack_ref (RArray 0) = Inr (0, 0, 0) \<and>
   check_shapes grid2 (store2 0) (store2 0) (store2 0) (store2 1) = Inr () \<and>
   snd (fdm3t_call spsolve1 store2 grid2 [Fin 0, Fin 1] (RArray 0) 1 2 3 (arr2 (-1) 1) (Fin 1)) 0 =
     arr2 k_floor k_floor \<and>
   snd (fdm3t_call spsolve1 store2 grid2 [Fin 0, Fin 1] (RArray 0) 1 2 3 (arr2 (-1) 1) (Fin 1)) 3 =
     arr2 (Fin 0) (Fin 1)"
proof -
  have u: "unpack_ref (RArray 0) = Inr (0, 0, 0)"
    by (simp add: unpack_ref_def)
  have c: "check_shapes grid2 (store2 0) (store2 0) (store2 0) (store2 1) = Inr ()"
    by (simp add: check_shapes_def store2_def arr2_def ones2_def)
  have v: "store2 0 = arr2 (Fin 0) (Fin (-3))" "store2 3 = arr2 (Fin 0) (Fin 1)"
    by (simp_all add: store2_def)
  from fdm3t_call_clamps_in_place[OF u c, of spsolve1 "[Fin 0, Fin 1]" 2 3 "arr2 (-1) 1" "Fin 1" 0]
       fdm3t_call_clamps_in_place[OF u c, of spsolve1 "[Fin 0, Fin 1]" 2 3 "arr2 (-1) 1" "Fin 1" 3]
  show ?thesis using u c v by (simp add: arr2_def k_floor_def float64_ops)
qed

text \<open>
  The result of the call is the result of \<open>fdm3t\<close> on the values the arrays have when
  the call starts, provided no conductivity array is also passed as \<^verbatim>\<open>Ss\<close>, \<^verbatim>\<open>FQ\<close>
  or \<^verbatim>\<open>HI\<close>.
\<close>

lemma fdm3t_call_result:
  assumes "unpack_ref kxyz = Inr (kx, ky, kz)"
    and "Ss \<notin> {kx, ky, kz}" "FQ \<notin> {kx, ky, kz}" "HI \<notin> {kx, ky, kz}"
  shows "fst (fdm3t_call spsolve st gr t kxyz Ss FQ HI IBOUND epsilon) =
         fdm3t spsolve gr t (deref_kxyz st kxyz) (st Ss) (st FQ) (st HI) IBOUND epsilon"
proof -
  have u: "unpack_kxyz (deref_kxyz st kxyz) = Inr (st kx, st ky, st kz)"
    using assms(1)
    by (auto simp: unpack_ref_def unpack_kxyz_def deref_kxyz_def
        split: kxyz_ref.splits list.splits)
  have d: "data (clamp_at (clamp_at (clamp_at st kx) ky) kz a) =
           (if a \<in> {kx, ky, kz} then clamp_k (data (st a)) else data (st a))" for a
    by (simp add: clamp_thrice)
  show ?thesis
    using assms(2-4)
    by (cases "check_shapes gr (st kx) (st ky) (st kz) (st Ss)")
       (simp_all add: fdm3t_call_def fdm3t_def assms(1) u d Let_def)
qed

section \<open>Validation of the inputs\<close>

text \<open>
  The four checks of \<^verbatim>\<open>fdm3t\<close> reject a conductivity or storage array of another
  shape, naming the array and both shapes, before anything is computed or written.
\<close>

lemma fdm3t_rejects_misshaped:
  assumes "unpack_kxyz kxyz = Inr (kx, ky, kz)"
  shows "shape kx \<noteq> gr_shape gr \<Longrightarrow>
           fdm3t spsolve gr t kxyz Ss FQ HI IBOUND epsilon
             = Inl (ShapeDiffers ''kx'' (shape kx) (gr_shape gr))"
    and "shape kx = gr_shape gr \<Longrightarrow> shape ky \<noteq> gr_shape gr \<Longrightarrow>
           fdm3t spsolve gr t kxyz Ss FQ HI IBOUND epsilon
             = Inl (ShapeDiffers ''ky'' (shape ky) (gr_shape gr))"
    and "shape kx = gr_shape gr \<Longrightarrow> shape ky = gr_shape gr \<Longrightarrow> shape kz \<noteq> gr_shape gr \<Longrightarrow>
           fdm3t spsolve gr t kxyz Ss FQ HI IBOUND epsilon
             = Inl (ShapeDiffers ''kz'' (shape kz) (gr_shape gr))"
    and "shape kx = gr_shape gr \<Longrightarrow> shape ky = gr_shape gr \<Longrightarrow> shape kz = gr_shape gr \<Longrightarrow>
         shape Ss \<noteq> gr_shape gr \<Longrightarrow>
           fdm3t spsolve gr t kxyz Ss FQ HI IBOUND epsilon
             = Inl (ShapeDiffers ''Ss'' (shape Ss) (gr_shape gr))"
  using assms by (simp_all add: fdm3t_def check_shapes_def)

text \<open>
  Neither \<^verbatim>\<open>fdm3t\<close> nor the constructor ever reads the shape of \<^verbatim>\<open>HI\<close>, and
  \<^verbatim>\<open>fdm3t\<close> reads the shape of neither \<^verbatim>\<open>FQ\<close> nor \<^verbatim>\<open>IBOUND\<close>.
\<close>

lemma fdm3t_reads_no_shape:
  "fdm3t spsolve gr t kxyz Ss (FQ\<lparr>shape := s1\<rparr>) (HI\<lparr>shape := s2\<rparr>) (IBOUND\<lparr>shape := s3\<rparr>) epsilon =
   fdm3t spsolve gr t kxyz Ss FQ HI IBOUND epsilon"
  by (simp add: fdm3t_def split: sum.splits prod.splits)

lemma Fdm3t_init_reads_no_HI_shape:
  "Fdm3t_init spsolve gr t kxyz Ss FQ (HI\<lparr>shape := s\<rparr>) IBOUND epsilon =
   Fdm3t_init spsolve gr t kxyz Ss FQ HI IBOUND epsilon"
  by (simp add: Fdm3t_init_def fdm3t_def split: sum.splits prod.splits)

lemma compute_two_steps:
  "fdm3t_compute spsolve1 grid2 [Fin 0, Fin 1, Fin 2] [Fin 1, Fin 1] [Fin 1, Fin 1] [Fin 1, Fin 1]
     [Fin 1, Fin 1] [Fin 0, Fin 0] [Fin 0, Fin 1] [-1, 1] (Fin 1) =
   Inr \<lparr>out_t = [Fin 0, Fin 1, Fin 2],
        Phi = [[Fin 0, Fin 1], [Fin 0, Fin (1/2)], [Fin 0, Fin (1/4)]],
        Q = [[Fin (-1/2), Fin (1/2)], [Fin (-1/4), Fin (1/4)]],
        Qs = [[Fin 0, Fin (1/2)], [Fin 0, Fin (1/4)]],
        Qx = [[Fin (-1/2)], [Fin (-1/4)]], Qy = [[], []], Qz = [[], []]\<rparr>"
  using run2_two_steps unfolding ones2_def run2_compute .

text \<open>
  C6 on the code: the constructor is given initial heads of shape \<open>(2)\<close> for a grid of
  shape \<open>(1, 1, 2)\<close>. Its fourth assertion compares the shape of \<^verbatim>\<open>Ss\<close> (line 267, under
  the message about \<^verbatim>\<open>HI\<close>), no check of \<^verbatim>\<open>fdm3t\<close> concerns \<^verbatim>\<open>HI\<close>, and the solve
  runs to its end.
\<close>

theorem Fdm3t_init_misshaped_HI_accepted:
  "shape HI_flat \<noteq> gr_shape grid2 \<and>
   Fdm3t_init spsolve1 grid2 [Fin 0, Fin 1, Fin 2] (KArray ones2) ones2 zeros2 HI_flat
     (arr2 (-1) 1) (Fin 1) =
   Inr \<lparr>out_t = [Fin 0, Fin 1, Fin 2],
        Phi = [[Fin 0, Fin 1], [Fin 0, Fin (1/2)], [Fin 0, Fin (1/4)]],
        Q = [[Fin (-1/2), Fin (1/2)], [Fin (-1/4), Fin (1/4)]],
        Qs = [[Fin 0, Fin (1/2)], [Fin 0, Fin (1/4)]],
        Qx = [[Fin (-1/2)], [Fin (-1/4)]], Qy = [[], []], Qz = [[], []]\<rparr>"
  by (simp add: Fdm3t_init_def init_kxyz_def fdm3t_def unpack_kxyz_def check_shapes_def
      ones2_def zeros2_def arr2_def HI_flat_def clamp_k_def k_floor_def float64_ops
      compute_two_steps)

section \<open>The time vector\<close>

text \<open>
  C7, as stated, fails: the code has no check of the time vector. Over the decreasing
  times 1, 0 the solve runs with \<open>dt = -1\<close> and returns, and over the single time 0 it
  returns the initial heads and no flows.
\<close>

theorem time_vector_unchecked_counterexample:
  "fdm3t spsolve1 grid2 [Fin 1, Fin 0] (KArray ones2) (arr2 (Fin 2) (Fin 2)) zeros2
     (arr2 (Fin 0) (Fin 1)) (arr2 (-1) 1) (Fin 1) =
   Inr \<lparr>out_t = [Fin 1, Fin 0], Phi = [[Fin 0, Fin 1], [Fin 0, Fin 2]], Q = [[Fin (-2), Fin 2]],
        Qs = [[Fin 0, Fin 2]], Qx = [[Fin (-2)]], Qy = [[]], Qz = [[]]\<rparr> \<and>
   fdm3t spsolve1 grid2 [Fin 0] (KArray ones2) ones2 zeros2
     (arr2 (Fin 0) (Fin 1)) (arr2 (-1) 1) (Fin 1) =
   Inr \<lparr>out_t = [Fin 0], Phi = [[Fin 0, Fin 1]], Q = [], Qs = [], Qx = [], Qy = [], Qz = []\<rparr>"
  using run2_backwards run2_single_time by (simp add: run2_def)

section \<open>Partitions of the time interval\<close>

text \<open>
  C8, as stated, fails: a pass of the loop is one implicit step, and one step of length 2
  is not two steps of length 1. From the head 1 next to a fixed head 0 the active cell
  reaches 1/3 in one step and 1/4 in two.
\<close>

theorem partition_independence_counterexample:
  "last (Phi (projr (fdm3t spsolve1 grid2 [Fin 0, Fin 2] (KArray ones2) ones2 zeros2
       (arr2 (Fin 0) (Fin 1)) (arr2 (-1) 1) (Fin 1)))) = [Fin 0, Fin (1/3)] \<and>
   last (Phi (projr (fdm3t spsolve1 grid2 [Fin 0, Fin 1, Fin 2] (KArray ones2) ones2 zeros2
       (arr2 (Fin 0) (Fin 1)) (arr2 (-1) 1) (Fin 1)))) = [Fin 0, Fin (1/4)] \<and>
   [Fin 0, Fin (1/3)] \<noteq> [Fin 0, Fin (1/4)]"
  using run2_one_step run2_two_steps by (simp add: run2_def)

lemma diff_3 [simp]: "diff [t0, t1, t2] = [t1 - t0, t2 - t1]"
  by (simp add: diff_def)

lemma diff_2 [simp]: "diff [t1, t2] = [t2 - t1]"
  by (simp add: diff_def)

lemma time_loop_two:
  assumes "time_loop spsolve gr S epsilon [d1, d2] P0 = Inr rs"
  obtains r1 r2 where "rs = [r1, r2]" "time_step spsolve gr S epsilon d1 P0 = Inr r1"
    "time_step spsolve gr S epsilon d2 (st_Phi r1) = Inr r2"
  using assms by (auto split: sum.splits)

text \<open>
  C8, amended. The heads and flows of the second step of a solve over the times
  \<open>t0, t1, t2\<close> are those of a solve over \<open>t1, t2\<close> that starts from the heads the first
  solve has at \<open>t1\<close>: a step depends on the head slice before it and on its own duration,
  and on nothing else the steps before have left.
\<close>

theorem steps_compose:
  assumes run: "fdm3t spsolve gr [t0, t1, t2] kxyz Ss FQ HI IBOUND epsilon = Inr out"
  shows "\<exists>out'. fdm3t spsolve gr [t1, t2] kxyz Ss FQ (HI\<lparr>data := Phi out ! 1\<rparr>) IBOUND epsilon = Inr out' \<and>
           Phi out' = [Phi out ! 1, Phi out ! 2] \<and> Q out' = [Q out ! 1] \<and> Qs out' = [Qs out ! 1] \<and>
           Qx out' = [Qx out ! 1] \<and> Qy out' = [Qy out ! 1] \<and> Qz out' = [Qz out ! 1]"
proof -
  from run obtain kx ky kz :: "float64 ndarray" and S Phi0 rs where
    u: "unpack_kxyz kxyz = Inr (kx, ky, kz)"
    and ch: "check_shapes gr kx ky kz Ss = Inr ()"
    and sys: "build_system gr (clamp_k (data kx)) (clamp_k (data ky)) (clamp_k (data kz))
            (data Ss) (data FQ) (data IBOUND) epsilon = Inr S"
    and b: "bcast (gr_nod gr) (data HI) = Inr Phi0"
    and loop: "time_loop spsolve gr S epsilon (diff [t0, t1, t2]) Phi0 = Inr rs"
    and P: "Phi out = Phi0 # map st_Phi rs" "Q out = map st_Q rs" "Qs out = map st_Qs rs"
      "Qx out = map st_Qx rs" "Qy out = map st_Qy rs" "Qz out = map st_Qz rs"
    by (elim fdm3t_Inr) blast
  from loop have "time_loop spsolve gr S epsilon [t1 - t0, t2 - t1] Phi0 = Inr rs"
    by simp
  then obtain r1 r2 where rs: "rs = [r1, r2]"
    and s1: "time_step spsolve gr S epsilon (t1 - t0) Phi0 = Inr r1"
    and s2: "time_step spsolve gr S epsilon (t2 - t1) (st_Phi r1) = Inr r2"
    by (rule time_loop_two)
  note m = build_system_masks[OF sys]
  have "length (st_Phi r1) = gr_nod gr"
    using time_step_heads(1)[OF s1] bcast_length[OF b] m by simp
  then have b': "bcast (gr_nod gr) (st_Phi r1) = Inr (st_Phi r1)"
    by (rule bcast_same)
  have dims: "\<not> (gr_nx gr = 0 \<or> gr_ny gr = 0 \<or> gr_nz gr = 0)"
    using run u ch sys by (auto simp: fdm3t_def fdm3t_compute_def split: if_splits)
  have "fdm3t spsolve gr [t1, t2] kxyz Ss FQ (HI\<lparr>data := st_Phi r1\<rparr>) IBOUND epsilon =
        Inr \<lparr>out_t = [t1, t2], Phi = [st_Phi r1, st_Phi r2], Q = [st_Q r2], Qs = [st_Qs r2],
             Qx = [st_Qx r2], Qy = [st_Qy r2], Qz = [st_Qz r2]\<rparr>"
    using dims by (simp add: fdm3t_def fdm3t_compute_def u ch sys b' s2)
  then show ?thesis using P rs by simp
qed

theorem steps_compose_witness:
  "fdm3t spsolve1 grid2 [Fin 0, Fin 1, Fin 2] (KArray ones2) ones2 zeros2 (arr2 (Fin 0) (Fin 1))
     (arr2 (-1) 1) (Fin 1) =
   Inr \<lparr>out_t = [Fin 0, Fin 1, Fin 2],
        Phi = [[Fin 0, Fin 1], [Fin 0, Fin (1/2)], [Fin 0, Fin (1/4)]],
        Q = [[Fin (-1/2), Fin (1/2)], [Fin (-1/4), Fin (1/4)]],
        Qs = [[Fin 0, Fin (1/2)], [Fin 0, Fin (1/4)]],
        Qx = [[Fin (-1/2)], [Fin (-1/4)]], Qy = [[], []], Qz = [[], []]\<rparr> \<and>
   (\<exists>out'. fdm3t spsolve1 grid2 [Fin 1, Fin 2] (KArray ones2) ones2 zeros2
             (arr2 (Fin 0) (Fin (1/2))) (arr2 (-1) 1) (Fin 1) = Inr out' \<and>
           Phi out' = [[Fin 0, Fin (1/2)], [Fin 0, Fin (1/4)]] \<and>
           Q out' = [[Fin (-1/4), Fin (1/4)]])"
proof -
  have r: "fdm3t spsolve1 grid2 [Fin 0, Fin 1, Fin 2] (KArray ones2) ones2 zeros2
      (arr2 (Fin 0) (Fin 1)) (arr2 (-1) 1) (Fin 1) =
    Inr \<lparr>out_t = [Fin 0, Fin 1, Fin 2],
        Phi = [[Fin 0, Fin 1], [Fin 0, Fin (1/2)], [Fin 0, Fin (1/4)]],
        Q = [[Fin (-1/2), Fin (1/2)], [Fin (-1/4), Fin (1/4)]],
        Qs = [[Fin 0, Fin (1/2)], [Fin 0, Fin (1/4)]],
        Qx = [[Fin (-1/2)], [Fin (-1/4)]], Qy = [[], []], Qz = [[], []]\<rparr>"
    using run2_two_steps by (simp add: run2_def)
  from steps_compose[OF r] r show ?thesis by (auto simp: arr2_def)
qed

section \<open>The solve returns for every non-empty time vector\<close>

lemma length_compress:
  "length xs = length ms \<Longrightarrow> length (compress ms xs) = length (filter id ms)"
proof (induction ms xs rule: list_induct2')
  case (4 m ms x xs)
  then show ?case by (cases m) (simp_all add: compress_def)
qed (simp_all add: compress_def)

lemma compress_map: "compress ms (map f xs) = map f (compress ms xs)"
proof (induction ms xs rule: list_induct2')
  case (4 m ms x xs)
  then show ?case by (cases m) (simp_all add: compress_def)
qed (simp_all add: compress_def)

lemma set_compress: "set (compress ms xs) \<subseteq> set xs"
  by (auto simp: compress_def dest: set_zip_rightD)

lemma square_csc_matrix: "csc_matrix n dat rows cols = Inr A \<Longrightarrow> square n A"
  by (auto simp: csc_matrix_def square_def list_all_iff split: if_splits)

lemma square_diags: "length v = n \<Longrightarrow> square n (diags v)"
  by (auto simp: diags_def square_def list_all_iff)

lemma square_mat_add: "square n A \<Longrightarrow> square n B \<Longrightarrow> square n (mat_add A B)"
  by (auto simp: mat_add_def square_def list_all_iff dest!: set_zip_leftD set_zip_rightD
      elim!: in_set_zipE)

lemma square_mat_neg: "square n A \<Longrightarrow> square n (mat_neg A)"
  by (auto simp: mat_neg_def square_def list_all_iff)

lemma square_add_diagonal: "square n A \<Longrightarrow> square n (add_diagonal A)"
  unfolding add_diagonal_def
  by (intro square_mat_add square_mat_neg square_diags) (simp_all add: row_sums_def square_def)

lemma square_system_matrix: "system_matrix gr Cx Cy Cz = Inr A \<Longrightarrow> square (gr_nod gr) A"
  by (auto simp: system_matrix_def split: prod.splits sum.splits
      intro: square_add_diagonal square_csc_matrix)

lemma build_system_parts:
  assumes "build_system gr kx ky kz Ss FQ IBOUND epsilon = Inr S"
  shows "square (gr_nod gr) (sys_A S)"
    and "sys_Cs S = map2 (\<lambda>s v. s * v / epsilon) Ss (gr_Volume gr)"
    and "sys_FQ S = FQ"
  using assms
  by (auto simp: build_system_def Let_def split: if_splits prod.splits sum.splits
      intro: square_system_matrix)

lemma square_implicit_matrix:
  "square n (sys_A S) \<Longrightarrow> length (sys_Cs S) = n \<Longrightarrow> square n (implicit_matrix S dt)"
  unfolding implicit_matrix_def by (intro square_mat_add square_diags) simp_all

lemma square_reduced_matrix:
  assumes "square n (sys_A S)" "length (sys_Cs S) = n" "length (sys_active S) = n"
  shows "square (length (filter id (sys_active S))) (reduced_matrix S dt)"
proof -
  have sq: "square n (implicit_matrix S dt)"
    using assms(1,2) by (rule square_implicit_matrix)
  then have rows: "\<And>row. row \<in> set (compress (sys_active S) (implicit_matrix S dt)) \<Longrightarrow> length row = n"
    using set_compress[of "sys_active S" "implicit_matrix S dt"]
    by (auto simp: square_def list_all_iff)
  show ?thesis
    using sq assms(3) rows
    by (auto simp: reduced_matrix_def square_def list_all_iff length_compress)
qed

lemma length_dot [simp]: "length (dot A v) = length A"
  by (simp add: dot_def)

lemma length_rhs_vector:
  "square n (sys_A S) \<Longrightarrow> length (sys_Cs S) = n \<Longrightarrow> length FQ = n \<Longrightarrow>
   length (rhs_vector S dt FQ Phi_prev) = n"
  using square_implicit_matrix[of n S dt] by (simp add: rhs_vector_def square_def)

lemma length_reduced_rhs:
  assumes "square n (sys_A S)" "length (sys_Cs S) = n" "length FQ = n"
    "length (sys_active S) = n" "length Phi_prev = n"
  shows "length (reduced_rhs S dt FQ Phi_prev) = length (filter id (sys_active S))"
  using assms length_rhs_vector[OF assms(1-3), of dt Phi_prev]
  by (simp add: reduced_rhs_def length_compress)

lemma time_step_returns:
  assumes sq: "square (gr_nod gr) (sys_A S)" and cs: "length (sys_Cs S) = gr_nod gr"
    and fq: "length (sys_FQ S) = gr_nod gr"
    and len: "length (sys_active S) = gr_nod gr" "length Phi_prev = gr_nod gr"
    and solver: "\<And>M b. square (length (filter id (sys_active S))) M \<Longrightarrow>
                   length b = length (filter id (sys_active S)) \<Longrightarrow>
                   \<exists>y. spsolve M b = Some y \<and> length y = length (filter id (sys_active S))"
  shows "\<exists>r. time_step spsolve gr S epsilon dt Phi_prev = Inr r"
proof -
  have b: "bcast (gr_nod gr) (sys_FQ S) = Inr (sys_FQ S)"
    using fq by (rule bcast_same)
  obtain y where "spsolve (reduced_matrix S dt) (reduced_rhs S dt (sys_FQ S) Phi_prev) = Some y"
    and "length y = length (filter id (sys_active S))"
    using solver[OF square_reduced_matrix[OF sq cs len(1)] length_reduced_rhs[OF sq cs fq len]]
    by blast
  then show ?thesis
    by (simp add: time_step_def b Let_def)
qed

lemma time_loop_returns:
  assumes sq: "square (gr_nod gr) (sys_A S)" and cs: "length (sys_Cs S) = gr_nod gr"
    and fq: "length (sys_FQ S) = gr_nod gr"
    and len: "length (sys_active S) = gr_nod gr" "length (sys_inact S) = gr_nod gr"
      "length (sys_fxhd S) = gr_nod gr"
    and solver: "\<And>M b. square (length (filter id (sys_active S))) M \<Longrightarrow>
                   length b = length (filter id (sys_active S)) \<Longrightarrow>
                   \<exists>y. spsolve M b = Some y \<and> length y = length (filter id (sys_active S))"
  shows "length P0 = gr_nod gr \<Longrightarrow>
         \<exists>rs. time_loop spsolve gr S epsilon dts P0 = Inr rs \<and> length rs = length dts"
proof (induction dts arbitrary: P0)
  case Nil
  then show ?case by simp
next
  case (Cons dt dts)
  have "\<exists>r. time_step spsolve gr S epsilon dt P0 = Inr r"
    by (rule time_step_returns[OF sq cs fq len(1) Cons.prems]) (rule solver)
  then obtain r where r: "time_step spsolve gr S epsilon dt P0 = Inr r" ..
  have "length (st_Phi r) = gr_nod gr"
    using time_step_heads(1)[OF r Cons.prems len] .
  from Cons.IH[OF this] r show ?case by auto
qed

lemma flat_index_bound:
  assumes "k < n0" "j < n1" "i < n2"
  shows "(k * n1 + j) * n2 + i < n0 * n1 * (n2::nat)"
proof -
  have "k * n1 + j + 1 \<le> (k + 1) * n1" using assms(2) by simp
  also have "\<dots> \<le> n0 * n1" using assms(1) by (intro mult_le_mono1) simp
  finally have a: "k * n1 + j + 1 \<le> n0 * n1" .
  have "(k * n1 + j) * n2 + i < (k * n1 + j + 1) * n2" using assms(3) by simp
  also have "\<dots> \<le> n0 * n1 * n2" using a by (intro mult_le_mono1)
  finally show ?thesis .
qed

lemma tab3_set:
  assumes "x \<in> set (tab3 n0 n1 n2 f)"
  shows "\<exists>k<n0. \<exists>j<n1. \<exists>i<n2. x = f k j i"
proof -
  from assms obtain p where p: "p < n0 * n1 * n2"
    and x: "x = f (p div (n1 * n2)) ((p div n2) mod n1) (p mod n2)"
    by (auto simp: tab3_def)
  from p have pos: "0 < n1" "0 < n2" by (cases n1; cases n2; simp)+
  have "p div (n1 * n2) < n0"
    using p by (simp add: less_mult_imp_div_less mult.assoc)
  moreover have "(p div n2) mod n1 < n1" using pos by simp
  moreover have "p mod n2 < n2" using pos by simp
  ultimately show ?thesis using x by blast
qed


lemma NOD_entry:
  assumes "wf_grid gr" "k < gr_nz gr" "j < gr_ny gr" "i < gr_nx gr"
  shows "at3 (gr_ny gr) (gr_nx gr) (gr_NOD gr) k j i < gr_nod gr"
proof -
  have "(k * gr_ny gr + j) * gr_nx gr + i < gr_nod gr"
    using flat_index_bound[OF assms(2-4)] by (simp add: gr_nod_def)
  then show ?thesis
    using assms(1) by (simp add: wf_grid_def at3_def list_all_length)
qed

lemma conductances_lengths:
  assumes "conductances gr p inact kx ky kz = (Cx, Cy, Cz)"
  shows "length Cx = gr_nz gr * gr_ny gr * (gr_nx gr - 1)"
    and "length Cy = gr_nz gr * (gr_ny gr - 1) * gr_nx gr"
    and "length Cz = (gr_nz gr - 1) * gr_ny gr * gr_nx gr"
  using assms by (auto simp: conductances_def Let_def split: prod.splits)

lemma system_matrix_assembles:
  assumes wf: "wf_grid gr"
    and len: "length Cx = gr_nz gr * gr_ny gr * (gr_nx gr - 1)"
      "length Cy = gr_nz gr * (gr_ny gr - 1) * gr_nx gr"
      "length Cz = (gr_nz gr - 1) * gr_ny gr * gr_nx gr"
  shows "\<exists>A. system_matrix gr Cx Cy Cz = Inr A"
proof -
  obtain dat rows cols where coo: "assemble_coo gr Cx Cy Cz = (dat, rows, cols)"
    by (cases "assemble_coo gr Cx Cy Cz") auto
  have l: "length rows = length dat" "length cols = length dat"
    using coo len by (auto simp: assemble_coo_def Let_def)
  have bound: "r < gr_nod gr" if "r \<in> set rows \<union> set cols" for r
    using that coo
    by (auto simp: assemble_coo_def Let_def dest!: tab3_set intro!: NOD_entry[OF wf])
  then have "\<not> list_ex (\<lambda>r. gr_nod gr \<le> r) rows" "\<not> list_ex (\<lambda>c. gr_nod gr \<le> c) cols"
    by (fastforce simp: list_ex_iff)+
  then show ?thesis
    using l by (simp add: system_matrix_def coo csc_matrix_def)
qed

lemma build_system_assembles:
  assumes "wf_grid gr" "length IBOUND = gr_nod gr"
  shows "\<exists>S. build_system gr kx ky kz Ss FQ IBOUND epsilon = Inr S"
proof -
  obtain Cx Cy Cz where c: "conductances gr (Fin (1/10)) (map (\<lambda>b. b = 0) IBOUND) kx ky kz = (Cx, Cy, Cz)"
    by (cases "conductances gr (Fin (1/10)) (map (\<lambda>b. b = 0) IBOUND) kx ky kz") auto
  from system_matrix_assembles[OF assms(1) conductances_lengths[OF c]]
  obtain A where "system_matrix gr Cx Cy Cz = Inr A" ..
  then show ?thesis using assms(2) c by (simp add: build_system_def Let_def)
qed
lemma length_diff [simp]: "length (diff t) = length t - 1"
  by (simp add: diff_def)

lemma spsolve1_returns:
  assumes "square 1 M" "length b = 1"
  shows "\<exists>y. spsolve1 M b = Some y \<and> length y = 1"
proof -
  from assms obtain m r where "M = [[m]]" "b = [r]"
    by (auto simp: square_def length_Suc_conv)
  then show ?thesis by (simp add: spsolve1_def)
qed

lemma fdm3t_empty_time_vector:
  assumes "unpack_kxyz kxyz = Inr (kx, ky, kz)" "check_shapes gr kx ky kz Ss = Inr ()"
    and "build_system gr (clamp_k (data kx)) (clamp_k (data ky)) (clamp_k (data kz))
           (data Ss) (data FQ) (data IBOUND) epsilon = Inr S"
  shows "fdm3t spsolve gr [] kxyz Ss FQ HI IBOUND epsilon =
         Inl (PyError ''ValueError: negative dimensions are not allowed'')"
  using assms by (simp add: fdm3t_def fdm3t_compute_def)

text \<open>
  C7, amended. The solver does not validate the time vector: for every time vector with
  at least one point, in whatever order, a well-formed grid, inputs that pass the shape
  checks and hold one value per cell, and a linear solver that returns a solution vector
  for every square system of the active cells, the solve returns a result with one head
  slice per time and one flow slice per step.
\<close>

theorem fdm3t_returns_for_any_time_vector:
  assumes wf: "wf_grid gr"
    and u: "unpack_kxyz kxyz = Inr (kx, ky, kz)" and ch: "check_shapes gr kx ky kz Ss = Inr ()"
    and len: "length (data Ss) = gr_nod gr" "length (data FQ) = gr_nod gr"
      "length (data HI) = gr_nod gr" "length (data IBOUND) = gr_nod gr"
    and solver: "\<And>M b. square (length (filter (\<lambda>b. 0 < b) (data IBOUND))) M \<Longrightarrow>
                   length b = length (filter (\<lambda>b. 0 < b) (data IBOUND)) \<Longrightarrow>
                   \<exists>y. spsolve M b = Some y \<and> length y = length (filter (\<lambda>b. 0 < b) (data IBOUND))"
    and t: "t \<noteq> []"
  shows "\<exists>out. fdm3t spsolve gr t kxyz Ss FQ HI IBOUND epsilon = Inr out \<and>
           length (Phi out) = length t \<and> length (Q out) = length t - 1"
proof -
  obtain S where sys: "build_system gr (clamp_k (data kx)) (clamp_k (data ky)) (clamp_k (data kz))
           (data Ss) (data FQ) (data IBOUND) epsilon = Inr S"
    using build_system_assembles[OF wf len(4)] by blast
  note m = build_system_masks[OF sys] and parts = build_system_parts[OF sys]
  have cs: "length (sys_Cs S) = gr_nod gr"
    using parts(2) len(1) wf by (simp add: wf_grid_def)
  have fq: "length (sys_FQ S) = gr_nod gr" using parts(3) len(2) by simp
  have lens: "length (sys_active S) = gr_nod gr" "length (sys_inact S) = gr_nod gr"
    "length (sys_fxhd S) = gr_nod gr"
    using m by simp_all
  have n: "length (filter id (sys_active S)) = length (filter (\<lambda>b. 0 < b) (data IBOUND))"
    by (simp add: m(2) filter_map comp_def)
  have "\<exists>rs. time_loop spsolve gr S epsilon (diff t) (data HI) = Inr rs \<and>
          length rs = length (diff t)"
    by (rule time_loop_returns[OF parts(1) cs fq lens _ len(3)]) (simp only: n solver)
  then obtain rs where "time_loop spsolve gr S epsilon (diff t) (data HI) = Inr rs"
    and "length rs = length t - 1" by auto
  then show ?thesis
    using u ch sys t wf len(3)
    by (cases t) (simp_all add: fdm3t_def fdm3t_compute_def bcast_same wf_grid_def)
qed

theorem fdm3t_returns_for_any_time_vector_witness:
  "wf_grid grid2 \<and> unpack_kxyz (KArray ones2) = Inr (ones2, ones2, ones2) \<and>
   check_shapes grid2 ones2 ones2 ones2 (arr2 (Fin 2) (Fin 2)) = Inr () \<and>
   [Fin 1, Fin 0] \<noteq> [] \<and>
   (\<exists>out. fdm3t spsolve1 grid2 [Fin 1, Fin 0] (KArray ones2) (arr2 (Fin 2) (Fin 2)) zeros2
             (arr2 (Fin 0) (Fin 1)) (arr2 (-1) 1) (Fin 1) = Inr out \<and>
           length (Phi out) = length [Fin 1, Fin 0] \<and> length (Q out) = length [Fin 1, Fin 0] - 1)"
proof -
  have wf: "wf_grid grid2"
    by (simp add: wf_grid_def) (simp add: grid2_def)
  have u: "unpack_kxyz (KArray ones2) = Inr (ones2, ones2, ones2)"
    by (simp add: unpack_kxyz_def)
  have ch: "check_shapes grid2 ones2 ones2 ones2 (arr2 (Fin 2) (Fin 2)) = Inr ()"
    by (simp add: check_shapes_def ones2_def arr2_def)
  have len: "length (data (arr2 (Fin 2) (Fin 2))) = gr_nod grid2" "length (data zeros2) = gr_nod grid2"
    "length (data (arr2 (Fin 0) (Fin 1))) = gr_nod grid2"
    "length (data (arr2 (-1) (1::int))) = gr_nod grid2"
    by (simp_all add: arr2_def zeros2_def)
  have n: "length (filter (\<lambda>b. 0 < b) (data (arr2 (-1) (1::int)))) = 1"
    by (simp add: arr2_def)
  have t: "[Fin 1, Fin 0] \<noteq> []" by simp
  have "\<exists>out. fdm3t spsolve1 grid2 [Fin 1, Fin 0] (KArray ones2) (arr2 (Fin 2) (Fin 2)) zeros2
             (arr2 (Fin 0) (Fin 1)) (arr2 (-1) 1) (Fin 1) = Inr out \<and>
           length (Phi out) = length [Fin 1, Fin 0] \<and> length (Q out) = length [Fin 1, Fin 0] - 1"
    by (rule fdm3t_returns_for_any_time_vector[OF wf u ch len _ t])
       (simp only: n spsolve1_returns)
  then show ?thesis using wf u ch t by blast
qed

section \<open>The proxy for a zero inner radius\<close>

text \<open>
  The proxy is read only in axial mode and only when the innermost boundary radius is
  not positive.
\<close>

lemma proxy_unused_cartesian:
  "\<not> gr_axial gr \<Longrightarrow> conductances gr p1 inact kx ky kz = conductances gr p2 inact kx ky kz"
  by (simp add: conductances_def resistances_def Let_def)

lemma proxy_unused_positive_radius:
  "0 < gr_x gr ! 0 \<Longrightarrow> conductances gr p1 inact kx ky kz = conductances gr p2 inact kx ky kz"
  by (simp add: conductances_def resistances_def Let_def)

lemma grid2_axial_dims [simp]:
  "gr_nx grid2_axial = 2" "gr_ny grid2_axial = 1" "gr_nz grid2_axial = 1" "gr_axial grid2_axial"
  "gr_x grid2_axial = [Fin 0, Fin 1, Fin 2]" "gr_xm grid2_axial = [Fin (1/2), Fin (3/2)]"
  "gr_DZ grid2_axial = [Fin 1, Fin 1]"
  by (simp_all add: grid2_axial_def grid2_def)

lemma resistances_grid2_axial:
  assumes "0 < pv"
  shows "resistances grid2_axial (Fin pv) [Fin 1, Fin 1] [Fin 1, Fin 1] [Fin 1, Fin 1] =
     ([Fin (ln 2 / (2 * pi)), Fin (ln (4/3) / (2 * pi))],
      [Fin (ln (1 / (2 * pv)) / (2 * pi)), Fin (ln (3/2) / (2 * pi))],
      [PInf, PInf],
      [Fin (1 / (2 * pi)), Fin (1 / (6 * pi))])"
  using assms
  by (simp add: resistances_def Let_def at3_def float64_ops)

lemma conductances_grid2_axial:
  assumes "0 < pv" "ln (4/3) + ln (1 / (2 * pv)) \<noteq> 0"
  shows "fst (conductances grid2_axial (Fin pv) [False, False] [Fin 1, Fin 1] [Fin 1, Fin 1] [Fin 1, Fin 1]) =
         [Fin (2 * pi / (ln (4/3) + ln (1 / (2 * pv))))]"
  using assms
  by (simp add: conductances_def resistances_grid2_axial mask_fill_def at3_def float64_ops
      add_divide_distrib[symmetric])

text \<open>
  C5 on the code: two rings around the axis, the innermost boundary radius zero. Line 119
  adds \<^verbatim>\<open>Rx2[:, :, :-1]\<close>, whose column 0 is the half-resistance between the proxy and
  the centre of the innermost cell, to \<^verbatim>\<open>Rx1[:, :, 1:]\<close>. The conductance between the
  two cells therefore changes with the proxy: it is \<open>2 pi / (ln (4/3) + ln 5)\<close> with the
  factor 0.1 of line 103 and \<open>2 pi / ln (4/3)\<close> with the factor 0.5.
\<close>

theorem proxy_changes_conductance:
  "gr_x grid2_axial ! 0 = Fin 0 \<and>
   fst (conductances grid2_axial (Fin (1/10)) [False, False] [Fin 1, Fin 1] [Fin 1, Fin 1] [Fin 1, Fin 1]) =
     [Fin (2 * pi / (ln (4/3) + ln 5))] \<and>
   fst (conductances grid2_axial (Fin (1/2)) [False, False] [Fin 1, Fin 1] [Fin 1, Fin 1] [Fin 1, Fin 1]) =
     [Fin (2 * pi / ln (4/3))] \<and>
   2 * pi / (ln (4/3) + ln 5) \<noteq> 2 * pi / ln (4/3)"
proof -
  have p: "ln (4/3) > (0::real)" "ln 5 > (0::real)" by simp_all
  have a: "fst (conductances grid2_axial (Fin (1/10)) [False, False] [Fin 1, Fin 1] [Fin 1, Fin 1] [Fin 1, Fin 1]) =
     [Fin (2 * pi / (ln (4/3) + ln 5))]"
    using conductances_grid2_axial[of "1/10"] p by simp
  have b: "fst (conductances grid2_axial (Fin (1/2)) [False, False] [Fin 1, Fin 1] [Fin 1, Fin 1] [Fin 1, Fin 1]) =
     [Fin (2 * pi / ln (4/3))]"
    using conductances_grid2_axial[of "1/2"] p by simp
  have c: "2 * pi / (ln (4/3) + ln 5) \<noteq> 2 * pi / ln (4/3)"
    using p by (simp add: field_simps)
  show ?thesis using a b c by simp
qed


section \<open>The entries of the system matrix\<close>

lemma is_fin_Fin [simp]: "is_fin (Fin a)" "\<not> is_fin NaN" "\<not> is_fin PInf" "\<not> is_fin NInf"
  by (simp_all add: is_fin_def)

lemma is_fin_rl: "is_fin v \<Longrightarrow> v = Fin (rl v)"
  by (cases v) (simp_all add: rl_def)

lemma rl_Fin [simp]: "rl (Fin a) = a"
  by (simp add: rl_def)

lemma fsum_Nil [simp]: "fsum [] = Fin 0"
  by (simp add: fsum_def zero_float64_def)

lemma fsum_Cons [simp]: "fsum (x # xs) = x + fsum xs"
  by (simp add: fsum_def)

lemma fsum_finite:
  "list_all is_fin xs \<Longrightarrow> fsum xs = Fin (sum_list (map rl xs))"
proof (induction xs)
  case (Cons x xs)
  then show ?case by (cases x) (simp_all add: plus_float64_def)
qed simp

lemma fsum_map_Fin [simp]: "fsum (map (\<lambda>j. Fin (f j)) xs) = Fin (sum_list (map f xs))"
  by (induction xs) (simp_all add: plus_float64_def)

lemma add_zero_right [simp]: "v + Fin 0 = (v::float64)"
  by (cases v) (simp_all add: plus_float64_def)

lemma add_zero_left [simp]: "Fin 0 + v = (v::float64)"
  by (cases v) (simp_all add: plus_float64_def)

lemma coo_entry_finite:
  assumes "list_all is_fin dat"
  shows "is_fin (coo_entry dat rows cols i j)"
proof -
  have "list_all is_fin (map fst (filter (\<lambda>(d, r, c). r = i \<and> c = j) (zip dat (zip rows cols))))"
    using assms by (auto simp: list_all_iff dest: set_zip_leftD)
  then show ?thesis by (simp add: coo_entry_def fsum_finite)
qed

lemma sum_list_delta:
  "i < n \<Longrightarrow> sum_list (map (\<lambda>j. if i = j then c else (0::real)) [0..<n]) = c"
  by (simp add: interv_sum_list_conv_sum_set_nat)

text \<open>The matrix of line 143 from a table of finite entries \<open>a i j\<close>.\<close>

lemma add_diagonal_table:
  assumes "i < n" "j < n"
  shows "add_diagonal (map (\<lambda>i. map (\<lambda>j. Fin (a i j)) [0..<n]) [0..<n]) ! i =
           map (\<lambda>j. Fin (- a i j + (if i = j then sum_list (map (a i) [0..<n]) else 0))) [0..<n]"
  using assms
  by (auto simp: add_diagonal_def mat_add_def mat_neg_def diags_def row_sums_def
      float64_ops intro!: nth_equalityI)


lemma sum_list_without:
  assumes "i < n"
  shows "sum_list (map f (filter (\<lambda>k. k \<noteq> i) [0..<n])) = sum_list (map f [0..<n]) - (f i :: real)"
proof -
  have "sum_list (map f (filter (\<lambda>k. k \<noteq> i) [0..<n])) =
        sum_list (map (\<lambda>k. f k - (if i = k then f i else 0)) [0..<n])"
    by (simp add: sum_list_map_filter') (rule arg_cong[where f=sum_list], auto)
  also have "\<dots> = sum_list (map f [0..<n]) - sum_list (map (\<lambda>k. if i = k then f i else 0) [0..<n])"
    by (rule sum_list_subtractf)
  finally show ?thesis using assms by (simp add: sum_list_delta)
qed

lemma row_sum_zero:
  assumes "i < n"
  shows "sum_list (map (\<lambda>j. - f j + (if i = j then sum_list (map f [0..<n]) else 0)) [0..<n]) = (0::real)"
proof -
  have "sum_list (map (\<lambda>j. - f j + (if i = j then sum_list (map f [0..<n]) else 0)) [0..<n]) =
        sum_list (map (\<lambda>j. - f j) [0..<n]) +
        sum_list (map (\<lambda>j. if i = j then sum_list (map f [0..<n]) else 0) [0..<n])"
    by (rule sum_list_addf)
  also have "sum_list (map (\<lambda>j. - f j) xs) = - sum_list (map f xs)" for xs :: "nat list"
    by (induction xs) simp_all
  finally show ?thesis using assms by (simp add: sum_list_delta)
qed



lemma pair_conductance_grid2:
  "pair_conductance grid2 [c] [] [] 0 1 = c" "pair_conductance grid2 [c] [] [] 1 0 = c"
  by (simp_all add: pair_conductance_def assemble_coo_def coo_entry_def at3_def)
     (simp_all add: grid2_def)


section \<open>Conservation\<close>


lemma nth_compress:
  "c < length ms \<Longrightarrow> length xs = length ms \<Longrightarrow> ms ! c \<Longrightarrow>
   compress ms xs ! length (filter id (take c ms)) = xs ! c"
proof (induction ms xs arbitrary: c rule: list_induct2')
  case (4 m ms x xs)
  show ?case
  proof (cases c)
    case 0
    then show ?thesis using 4 by (simp add: compress_def)
  next
    case (Suc c')
    then show ?thesis using 4 by (cases m) (simp_all add: compress_def)
  qed
qed simp_all

lemma rank_less:
  "c < length ms \<Longrightarrow> ms ! c \<Longrightarrow> length (filter id (take c ms)) < length (filter id ms)"
proof (induction ms arbitrary: c)
  case (Cons m ms)
  then show ?case by (cases c) auto
qed simp

lemma nth_mask_assign:
  "c < length ms \<Longrightarrow> length xs = length ms \<Longrightarrow> length ys = length (filter id ms) \<Longrightarrow>
   mask_assign ms xs ys ! c = (if ms ! c then ys ! length (filter id (take c ms)) else xs ! c)"
proof (induction ms xs ys arbitrary: c rule: mask_assign.induct)
  case (1 ms x xs y ys)
  then show ?case by (cases c) (simp_all add: id_def)
next
  case (2 ms x xs ys)
  then show ?case by (cases c) (simp_all add: id_def)
qed simp_all

lemma mask_assign_finite:
  "list_all is_fin xs \<Longrightarrow> list_all is_fin ys \<Longrightarrow> list_all is_fin (mask_assign ms xs ys)"
  by (induction ms xs ys rule: mask_assign.induct) simp_all

text \<open>
  A row against the provisional heads (zero outside the mask) is the masked row against
  the solution vector.
\<close>

lemma dot_mask_assign:
  "list_all is_fin row \<Longrightarrow> length row = length ms \<Longrightarrow> length ys = length (filter id ms) \<Longrightarrow>
   fsum (map2 (*) row (mask_assign ms (replicate (length ms) 0) ys)) =
   fsum (map2 (*) (compress ms row) ys)"
proof (induction ms arbitrary: row ys)
  case Nil
  then show ?case by (simp add: compress_def)
next
  case (Cons m ms)
  then obtain r row' where row: "row = r # row'" by (cases row) auto
  with Cons.prems obtain a where r: "r = Fin a" by (cases r) auto
  show ?case
  proof (cases m)
    case True
    with Cons.prems obtain y ys' where ys: "ys = y # ys'" by (cases ys) auto
    show ?thesis
      using Cons.IH[of row' ys'] Cons.prems True
      by (simp add: row ys compress_def)
  next
    case False
    show ?thesis
      using Cons.IH[of row' ys] Cons.prems False
      by (simp add: row r compress_def zero_float64_def times_float64_def)
  qed
qed


lemma dot_real:
  assumes "list_all is_fin xs" "list_all is_fin ys" "length xs = length ys"
  shows "fsum (map2 (*) xs ys) = Fin (\<Sum>j\<leftarrow>[0..<length xs]. rl (xs ! j) * rl (ys ! j))"
proof -
  have "map2 (*) xs ys = map (\<lambda>j. Fin (rl (xs ! j) * rl (ys ! j))) [0..<length xs]"
  proof (rule nth_equalityI)
    show "length (map2 (*) xs ys) = length (map (\<lambda>j. Fin (rl (xs ! j) * rl (ys ! j))) [0..<length xs])"
      using assms(3) by simp
  next
    fix i assume "i < length (map2 (*) xs ys)"
    then have i: "i < length xs" "i < length ys" by simp_all
    then have "is_fin (xs ! i)" "is_fin (ys ! i)"
      using assms(1,2) by (simp_all add: list_all_length)
    then have "xs ! i = Fin (rl (xs ! i))" "ys ! i = Fin (rl (ys ! i))"
      by (simp_all add: is_fin_rl[symmetric])
    then have "xs ! i * ys ! i = Fin (rl (xs ! i) * rl (ys ! i))"
      by (metis fmul.simps(1) times_float64_def)
    then show "map2 (*) xs ys ! i = map (\<lambda>j. Fin (rl (xs ! j) * rl (ys ! j))) [0..<length xs] ! i"
      using i by simp
  qed
  then show ?thesis by simp
qed

lemma dot_zeros:
  "list_all is_fin row \<Longrightarrow> list_all (\<lambda>v. v = Fin 0) zs \<Longrightarrow> fsum (map2 (*) row zs) = Fin 0"
proof (induction row arbitrary: zs)
  case (Cons r row)
  then show ?case
    by (cases zs; cases r) (simp_all add: times_float64_def)
qed simp

lemma compress_finite: "list_all is_fin xs \<Longrightarrow> list_all is_fin (compress ms xs)"
  using set_compress[of ms xs] by (auto simp: list_all_iff)


lemma implicit_matrix_row:
  assumes "square n (sys_A S)" "length (sys_Cs S) = n" "c < n"
  shows "implicit_matrix S dt ! c =
         map (\<lambda>j. sys_A S ! c ! j + (if c = j then sys_Cs S ! c / dt else 0)) [0..<n]"
  using assms
  by (auto simp: implicit_matrix_def mat_add_def diags_def square_def list_all_length
      intro!: nth_equalityI)

lemma step_storage_balance:
  assumes step: "time_step spsolve gr S epsilon (Fin d) Phi_prev = Inr r" and d: "d \<noteq> 0"
    and exact: "\<And>y. spsolve (reduced_matrix S (Fin d)) (reduced_rhs S (Fin d) (sys_FQ S) Phi_prev) = Some y \<Longrightarrow>
                  dot (reduced_matrix S (Fin d)) y = reduced_rhs S (Fin d) (sys_FQ S) Phi_prev \<and>
                  list_all is_fin y"
    and sq: "square (gr_nod gr) (sys_A S)"
    and lens: "length (sys_Cs S) = gr_nod gr" "length (sys_FQ S) = gr_nod gr"
      "length (sys_active S) = gr_nod gr" "length (sys_fxhd S) = gr_nod gr"
      "length Phi_prev = gr_nod gr"
    and c: "c < gr_nod gr" "sys_active S ! c"
    and fin: "list_all is_fin (sys_A S ! c)" "is_fin (sys_Cs S ! c)" "is_fin (sys_FQ S ! c)"
      "is_fin (Phi_prev ! c)"
    and fixed0: "list_all (\<lambda>v. v = Fin 0) (compress (sys_fxhd S) Phi_prev)"
  shows "st_Q r ! c = sys_FQ S ! c + st_Qs r ! c"
proof -
  define n where "n = gr_nod gr"
  define act where "act = sys_active S"
  define k where "k = length (filter id (take c act))"
  define M where "M = implicit_matrix S (Fin d)"
  have b: "bcast (gr_nod gr) (sys_FQ S) = Inr (sys_FQ S)"
    using lens(2) by (rule bcast_same)
  from step obtain y where y: "spsolve (reduced_matrix S (Fin d)) (reduced_rhs S (Fin d) (sys_FQ S) Phi_prev) = Some y"
    and ly: "length y = length (filter id act)"
    by (auto simp: time_step_def b Let_def act_def split: option.splits if_splits)
  define Phi1 where "Phi1 = mask_assign act (replicate n 0) y"
  from step y ly have Q: "st_Q r = dot (sys_A S) Phi1"
    and Qs: "st_Qs r = map2 (*) (map (\<lambda>c. - c / Fin d) (sys_Cs S)) (map2 (-) Phi1 Phi_prev)"
    by (auto simp: time_step_def b Let_def act_def Phi1_def n_def split: if_splits)
  from exact[OF y] have ex: "dot (reduced_matrix S (Fin d)) y = reduced_rhs S (Fin d) (sys_FQ S) Phi_prev"
    and yfin: "list_all is_fin y" by simp_all
  have cn: "c < n" "act ! c" "length act = n" using c lens by (simp_all add: n_def act_def)
  have klt: "k < length (filter id act)"
    unfolding k_def using cn by (intro rank_less) simp_all
  have sqM: "square n M"
    unfolding M_def n_def using sq lens(1) by (rule square_implicit_matrix)
  have Mrow: "M ! c = map (\<lambda>j. sys_A S ! c ! j + (if c = j then sys_Cs S ! c / Fin d else 0)) [0..<n]"
    unfolding M_def using implicit_matrix_row[of n S c "Fin d"] sq lens(1) cn(1) by (simp add: n_def)
  obtain cs where cs: "sys_Cs S ! c = Fin cs" using fin(2) by (cases "sys_Cs S ! c") simp_all
  obtain q where q: "sys_FQ S ! c = Fin q" using fin(3) by (cases "sys_FQ S ! c") simp_all
  obtain p where p: "Phi_prev ! c = Fin p" using fin(4) by (cases "Phi_prev ! c") simp_all
  define a where "a j = rl (sys_A S ! c ! j)" for j
  have lenA: "length (sys_A S ! c) = n"
    using sq cn(1) by (simp add: square_def list_all_length n_def)
  have Aj: "sys_A S ! c ! j = Fin (a j)" if "j < n" for j
    unfolding a_def using fin(1) that lenA by (simp add: list_all_length is_fin_rl[symmetric])
  have Mrow': "M ! c = map (\<lambda>j. Fin (a j + (if c = j then cs / d else 0))) [0..<n]"
    unfolding Mrow using d by (auto simp: Aj cs float64_ops)
  have Mfin: "list_all is_fin (M ! c)"
    unfolding Mrow' by (simp add: list_all_iff)
  have Phi1fin: "list_all is_fin Phi1"
    unfolding Phi1_def by (intro mask_assign_finite yfin) (simp add: list_all_iff zero_float64_def)
  have lenPhi1: "length Phi1 = n" by (simp add: Phi1_def)
  define f where "f j = rl (Phi1 ! j)" for j
  have Phi1c: "Phi1 ! c = y ! k"
    unfolding Phi1_def k_def using cn ly by (simp add: nth_mask_assign)
  have Phi1c': "Phi1 ! c = Fin (f c)"
    unfolding f_def using Phi1fin lenPhi1 cn(1) by (simp add: list_all_length is_fin_rl[symmetric])
  have "compress act M ! k = M ! c"
    unfolding k_def using cn sqM by (intro nth_compress) (simp_all add: square_def)
  moreover have "k < length (compress act M)"
    using klt sqM cn(3) by (simp add: length_compress square_def)
  ultimately have "reduced_matrix S (Fin d) ! k = compress act (M ! c)"
    by (simp add: reduced_matrix_def act_def M_def)
  moreover have "k < length (reduced_matrix S (Fin d))"
    using \<open>k < length (compress act M)\<close> by (simp add: reduced_matrix_def act_def M_def)
  ultimately have "dot (reduced_matrix S (Fin d)) y ! k = fsum (map2 (*) (compress act (M ! c)) y)"
    by (simp add: dot_def)
  also have "\<dots> = fsum (map2 (*) (M ! c) Phi1)"
    unfolding Phi1_def
    using dot_mask_assign[of "M ! c" act y] Mfin sqM cn ly
    by (simp add: square_def list_all_length)
  also have "\<dots> = Fin (\<Sum>j\<leftarrow>[0..<n]. (a j + (if c = j then cs / d else 0)) * f j)"
  proof -
    have lenM: "length (M ! c) = n" unfolding Mrow' by simp
    have "fsum (map2 (*) (M ! c) Phi1) = Fin (\<Sum>j\<leftarrow>[0..<n]. rl (M ! c ! j) * f j)"
      using dot_real[OF Mfin Phi1fin] lenM lenPhi1 by (simp add: f_def)
    also have "(\<Sum>j\<leftarrow>[0..<n]. rl (M ! c ! j) * f j) =
               (\<Sum>j\<leftarrow>[0..<n]. (a j + (if c = j then cs / d else 0)) * f j)"
      by (rule arg_cong[where f=sum_list], rule map_cong) (simp_all add: Mrow')
    finally show ?thesis .
  qed
  also have "(\<Sum>j\<leftarrow>[0..<n]. (a j + (if c = j then cs / d else 0)) * f j) =
             (\<Sum>j\<leftarrow>[0..<n]. a j * f j) + cs / d * f c"
  proof -
    have "(\<Sum>j\<leftarrow>[0..<n]. (a j + (if c = j then cs / d else 0)) * f j) =
          (\<Sum>j\<leftarrow>[0..<n]. a j * f j + (if c = j then cs / d * f c else 0))"
      by (rule arg_cong[where f=sum_list]) (auto simp: algebra_simps)
    also have "\<dots> = (\<Sum>j\<leftarrow>[0..<n]. a j * f j) + (\<Sum>j\<leftarrow>[0..<n]. if c = j then cs / d * f c else 0)"
      by (rule sum_list_addf)
    finally show ?thesis using cn(1) by (simp add: sum_list_delta)
  qed
  finally have lhs: "dot (reduced_matrix S (Fin d)) y ! k = Fin ((\<Sum>j\<leftarrow>[0..<n]. a j * f j) + cs / d * f c)" .
  have lenR: "length (rhs_vector S (Fin d) (sys_FQ S) Phi_prev) = n"
    using length_rhs_vector[OF sq lens(1,2)] by (simp add: n_def)
  have fixed_term: "dot (map (compress (sys_fxhd S)) M) (compress (sys_fxhd S) Phi_prev) ! c = Fin 0"
  proof -
    have "dot (map (compress (sys_fxhd S)) M) (compress (sys_fxhd S) Phi_prev) ! c =
          fsum (map2 (*) (compress (sys_fxhd S) (M ! c)) (compress (sys_fxhd S) Phi_prev))"
      using sqM cn(1) by (simp add: dot_def square_def)
    also have "\<dots> = Fin 0"
      by (intro dot_zeros compress_finite Mfin fixed0)
    finally show ?thesis .
  qed
  have rhsc: "rhs_vector S (Fin d) (sys_FQ S) Phi_prev ! c = Fin q"
    using fixed_term sqM cn(1) lens(2)
    by (simp add: rhs_vector_def M_def[symmetric] square_def n_def q float64_ops)
  have "reduced_rhs S (Fin d) (sys_FQ S) Phi_prev ! k =
        compress act (rhs_vector S (Fin d) (sys_FQ S) Phi_prev) ! k +
        compress act (sys_Cs S) ! k / Fin d * compress act Phi_prev ! k"
    using klt lenR lens cn(3)
    by (simp add: reduced_rhs_def act_def[symmetric] length_compress n_def)
  also have "\<dots> = Fin q + Fin cs / Fin d * Fin p"
    unfolding k_def using cn lenR lens
    by (simp add: nth_compress n_def rhsc cs p)
  finally have rhs: "reduced_rhs S (Fin d) (sys_FQ S) Phi_prev ! k = Fin (q + cs / d * p)"
    using d by (simp add: float64_ops)
  from ex lhs rhs have bal: "(\<Sum>j\<leftarrow>[0..<n]. a j * f j) + cs / d * f c = q + cs / d * p"
    by simp
  have "st_Q r ! c = fsum (map2 (*) (sys_A S ! c) Phi1)"
    using Q sq cn(1) by (simp add: dot_def square_def n_def)
  also have "\<dots> = Fin (\<Sum>j\<leftarrow>[0..<n]. a j * f j)"
    using dot_real[OF fin(1) Phi1fin] lenA lenPhi1 by (simp add: a_def f_def)
  finally have Qc: "st_Q r ! c = Fin (\<Sum>j\<leftarrow>[0..<n]. a j * f j)" .
  have "st_Qs r ! c = (- sys_Cs S ! c / Fin d) * (Phi1 ! c - Phi_prev ! c)"
    using Qs cn(1) lens lenPhi1 by (simp add: n_def)
  then have Qsc: "st_Qs r ! c = Fin (- cs / d * (f c - p))"
    using d by (simp add: cs p Phi1c' float64_ops)
  have "(\<Sum>j\<leftarrow>[0..<n]. a j * f j) = q + (- cs / d * (f c - p))"
    using bal by (simp add: algebra_simps)
  then show ?thesis
    by (simp add: Qc Qsc q plus_float64_def)
qed


lemma time_loop_nth:
  "time_loop spsolve gr S epsilon dts P0 = Inr rs \<Longrightarrow> i < length rs \<Longrightarrow>
   time_step spsolve gr S epsilon (dts ! i) ((P0 # map st_Phi rs) ! i) = Inr (rs ! i)"
proof (induction dts arbitrary: P0 rs i)
  case Nil
  then show ?case by simp
next
  case (Cons dt dts)
  from Cons.prems(1) obtain r1 rs1
    where s1: "time_step spsolve gr S epsilon dt P0 = Inr r1"
      and l1: "time_loop spsolve gr S epsilon dts (st_Phi r1) = Inr rs1"
      and rs: "rs = r1 # rs1"
    by (auto split: sum.splits)
  show ?case
  proof (cases i)
    case 0
    then show ?thesis using s1 rs by simp
  next
    case (Suc i')
    then show ?thesis using Cons.IH[OF l1, of i'] Cons.prems(2) rs by simp
  qed
qed

text \<open>Every slice of a result is what one pass of the loop made of the slice before.\<close>

lemma fdm3t_steps:
  assumes "fdm3t spsolve gr t kxyz Ss FQ HI IBOUND epsilon = Inr out" and "idt < length (Q out)"
  obtains kx ky kz S r where
    "unpack_kxyz kxyz = Inr (kx, ky, kz)"
    "build_system gr (clamp_k (data kx)) (clamp_k (data ky)) (clamp_k (data kz))
       (data Ss) (data FQ) (data IBOUND) epsilon = Inr S"
    "time_step spsolve gr S epsilon (diff t ! idt) (Phi out ! idt) = Inr r"
    "Phi out ! Suc idt = st_Phi r" "Q out ! idt = st_Q r" "Qs out ! idt = st_Qs r"
    "Qx out ! idt = st_Qx r" "Qy out ! idt = st_Qy r" "Qz out ! idt = st_Qz r"
proof -
  from assms(1) obtain kx ky kz :: "float64 ndarray" and S Phi0 rs where
    u: "unpack_kxyz kxyz = Inr (kx, ky, kz)"
    and sys: "build_system gr (clamp_k (data kx)) (clamp_k (data ky)) (clamp_k (data kz))
            (data Ss) (data FQ) (data IBOUND) epsilon = Inr S"
    and loop: "time_loop spsolve gr S epsilon (diff t) Phi0 = Inr rs"
    and P: "Phi out = Phi0 # map st_Phi rs" "Q out = map st_Q rs" "Qs out = map st_Qs rs"
      "Qx out = map st_Qx rs" "Qy out = map st_Qy rs" "Qz out = map st_Qz rs"
    by (elim fdm3t_Inr) blast
  have i: "idt < length rs" using assms(2) P by simp
  from time_loop_nth[OF loop i] have "time_step spsolve gr S epsilon (diff t ! idt) (Phi out ! idt) = Inr (rs ! idt)"
    using P by simp
  then show ?thesis using that[OF u sys, of "rs ! idt"] P i by simp
qed

lemma reduced_grid2:
  "reduced_matrix \<lparr>sys_A = [[Fin 1, Fin (-1)], [Fin (-1), Fin 1]], sys_Cs = [Fin 1, Fin 1],
      sys_FQ = [Fin 0, Fin 0], sys_active = [False, True], sys_inact = [False, False],
      sys_fxhd = [True, False], sys_Cx = [Fin 1], sys_Cy = [], sys_Cz = []\<rparr> (Fin 1) = [[Fin 2]]"
  "reduced_rhs \<lparr>sys_A = [[Fin 1, Fin (-1)], [Fin (-1), Fin 1]], sys_Cs = [Fin 1, Fin 1],
      sys_FQ = [Fin 0, Fin 0], sys_active = [False, True], sys_inact = [False, False],
      sys_fxhd = [True, False], sys_Cx = [Fin 1], sys_Cy = [], sys_Cz = []\<rparr> (Fin 1)
      [Fin 0, Fin 0] [Fin 0, Fin 1] = [Fin 1]"
  by (simp_all add: step_defs)


lemma coo_entry_real:
  assumes "list_all is_fin dat"
  shows "coo_entry dat rows cols i j =
         Fin (\<Sum>t\<leftarrow>zip dat (zip rows cols). if fst (snd t) = i \<and> snd (snd t) = j then rl (fst t) else 0)"
proof -
  have "list_all is_fin (map fst (filter (\<lambda>(d, r, c). r = i \<and> c = j) (zip dat (zip rows cols))))"
    using assms by (auto simp: list_all_iff dest: set_zip_leftD)
  then have "coo_entry dat rows cols i j =
      Fin (sum_list (map rl (map fst (filter (\<lambda>(d, r, c). r = i \<and> c = j) (zip dat (zip rows cols))))))"
    by (simp add: coo_entry_def fsum_finite)
  also have "sum_list (map rl (map fst (filter (\<lambda>(d, r, c). r = i \<and> c = j) (zip dat (zip rows cols))))) =
      (\<Sum>t\<leftarrow>zip dat (zip rows cols). if fst (snd t) = i \<and> snd (snd t) = j then rl (fst t) else 0)"
    by (simp add: comp_def sum_list_map_filter' case_prod_beta)
  finally show ?thesis .
qed

lemma sum_list_pick:
  "cl < n \<Longrightarrow> (\<Sum>j\<leftarrow>[0..<n]. (if P \<and> cl = j then x else 0) * \<psi> j) = (if P then x * \<psi> cl else (0::real))"
proof -
  assume cl: "cl < n"
  have "(\<Sum>j\<leftarrow>[0..<n]. (if P \<and> cl = j then x else 0) * \<psi> j) =
        (\<Sum>j\<leftarrow>[0..<n]. if cl = j then (if P then x * \<psi> cl else 0) else 0)"
    by (rule arg_cong[where f=sum_list]) auto
  then show ?thesis using cl by (simp only: sum_list_delta)
qed

lemma coo_matvec:
  fixes T :: "(float64 \<times> nat \<times> nat) list" and \<psi> :: "nat \<Rightarrow> real"
  assumes "\<forall>t \<in> set T. snd (snd t) < n"
  shows "(\<Sum>j\<leftarrow>[0..<n]. (\<Sum>t\<leftarrow>T. if fst (snd t) = c \<and> snd (snd t) = j then rl (fst t) else 0) * \<psi> j) =
         (\<Sum>t\<leftarrow>T. if fst (snd t) = c then rl (fst t) * \<psi> (snd (snd t)) else 0)"
  using assms
proof (induction T)
  case Nil
  then show ?case by simp
next
  case (Cons t T)
  have "(\<Sum>j\<leftarrow>[0..<n]. (\<Sum>t\<leftarrow>t # T. if fst (snd t) = c \<and> snd (snd t) = j then rl (fst t) else 0) * \<psi> j) =
        (\<Sum>j\<leftarrow>[0..<n]. (if fst (snd t) = c \<and> snd (snd t) = j then rl (fst t) else 0) * \<psi> j +
            (\<Sum>t\<leftarrow>T. if fst (snd t) = c \<and> snd (snd t) = j then rl (fst t) else 0) * \<psi> j)"
    by (rule arg_cong[where f=sum_list]) (simp add: algebra_simps)
  also have "\<dots> = (\<Sum>j\<leftarrow>[0..<n]. (if fst (snd t) = c \<and> snd (snd t) = j then rl (fst t) else 0) * \<psi> j) +
        (\<Sum>j\<leftarrow>[0..<n]. (\<Sum>t\<leftarrow>T. if fst (snd t) = c \<and> snd (snd t) = j then rl (fst t) else 0) * \<psi> j)"
    by (rule sum_list_addf)
  also have "\<dots> = (if fst (snd t) = c then rl (fst t) * \<psi> (snd (snd t)) else 0) +
        (\<Sum>t\<leftarrow>T. if fst (snd t) = c then rl (fst t) * \<psi> (snd (snd t)) else 0)"
    using Cons by (simp add: sum_list_pick)
  finally show ?case by simp
qed


text \<open>
  A row of the system matrix against a vector: every entered conductance times the
  difference between the row's cell and the column's cell.
\<close>

lemma system_matvec:
  assumes A: "system_matrix gr Cx Cy Cz = Inr A"
    and coo: "assemble_coo gr Cx Cy Cz = (dat, rows, cols)"
    and fin: "list_all is_fin dat" "list_all is_fin v"
    and len: "length v = gr_nod gr" and c: "c < gr_nod gr"
  shows "fsum (map2 (*) (A ! c) v) =
         Fin (\<Sum>t\<leftarrow>zip dat (zip rows cols).
                if fst (snd t) = c then rl (fst t) * (rl (v ! c) - rl (v ! snd (snd t))) else 0)"
proof -
  define n where "n = gr_nod gr"
  define T where "T = zip dat (zip rows cols)"
  define a where "a i j = (\<Sum>t\<leftarrow>T. if fst (snd t) = i \<and> snd (snd t) = j then rl (fst t) else 0)" for i j
  define f where "f j = rl (v ! j)" for j
  have e: "coo_entry dat rows cols i = (\<lambda>j. Fin (a i j))" for i
    by (rule ext) (simp add: coo_entry_real[OF fin(1)] a_def T_def)
  from A have nolarge: "\<not> list_ex (\<lambda>c. n \<le> c) cols"
    and A': "A = add_diagonal (map (\<lambda>i. map (\<lambda>j. Fin (a i j)) [0..<n]) [0..<n])"
    by (auto simp: system_matrix_def coo csc_matrix_def e n_def split: if_splits)
  have cols: "\<forall>t \<in> set T. snd (snd t) < n"
    using nolarge unfolding T_def list_ex_iff
    by (auto dest!: set_zip_rightD)
  have cn: "c < n" using c by (simp add: n_def)
  have row: "A ! c = map (\<lambda>j. Fin (- a c j + (if c = j then sum_list (map (a c) [0..<n]) else 0))) [0..<n]"
    unfolding A' using add_diagonal_table[OF cn cn] .
  have rfin: "list_all is_fin (A ! c)" unfolding row by (simp add: list_all_iff)
  have lr: "length (A ! c) = n" unfolding row by simp
  have "fsum (map2 (*) (A ! c) v) = Fin (\<Sum>j\<leftarrow>[0..<n]. rl (A ! c ! j) * f j)"
    using dot_real[OF rfin fin(2)] lr len by (simp add: f_def n_def)
  also have "(\<Sum>j\<leftarrow>[0..<n]. rl (A ! c ! j) * f j) =
             (\<Sum>j\<leftarrow>[0..<n]. (if c = j then sum_list (map (a c) [0..<n]) * f c else 0) - a c j * f j)"
    by (rule arg_cong[where f=sum_list], rule map_cong) (auto simp: row algebra_simps)
  also have "\<dots> = (\<Sum>j\<leftarrow>[0..<n]. if c = j then sum_list (map (a c) [0..<n]) * f c else 0) -
                   (\<Sum>j\<leftarrow>[0..<n]. a c j * f j)"
    by (rule sum_list_subtractf)
  also have "(\<Sum>j\<leftarrow>[0..<n]. if c = j then sum_list (map (a c) [0..<n]) * f c else 0) =
             sum_list (map (a c) [0..<n]) * f c"
    using cn by (simp only: sum_list_delta)
  also have "sum_list (map (a c) [0..<n]) = (\<Sum>j\<leftarrow>[0..<n]. a c j * 1)"
    by simp
  also have "\<dots> = (\<Sum>t\<leftarrow>T. if fst (snd t) = c then rl (fst t) * 1 else 0)"
    unfolding a_def by (rule coo_matvec[OF cols])
  also have "(\<Sum>j\<leftarrow>[0..<n]. a c j * f j) =
             (\<Sum>t\<leftarrow>T. if fst (snd t) = c then rl (fst t) * f (snd (snd t)) else 0)"
    unfolding a_def by (rule coo_matvec[OF cols])
  also have "(\<Sum>t\<leftarrow>T. if fst (snd t) = c then rl (fst t) * 1 else 0) * f c -
             (\<Sum>t\<leftarrow>T. if fst (snd t) = c then rl (fst t) * f (snd (snd t)) else 0) =
             (\<Sum>t\<leftarrow>T. if fst (snd t) = c then rl (fst t) * (f c - f (snd (snd t))) else 0)"
  proof (induction T)
    case (Cons t T)
    then show ?case by (simp add: algebra_simps)
  qed simp
  finally show ?thesis unfolding T_def f_def .
qed


lemma sum_list_zip3:
  assumes "length xs = m" "length ys = m" "length zs = m"
  shows "(\<Sum>t\<leftarrow>zip xs (zip ys zs). g t) = (\<Sum>p\<leftarrow>[0..<m]. g (xs ! p, ys ! p, zs ! p))"
proof -
  have "zip xs (zip ys zs) = map (\<lambda>p. (xs ! p, ys ! p, zs ! p)) [0..<m]"
    using assms by (intro nth_equalityI) simp_all
  then show ?thesis by (simp add: comp_def)
qed

lemma leaving_real:
  assumes "length I = m" "length Qf = m" "\<And>p. p < m \<Longrightarrow> Qf ! p = Fin (q p)"
  shows "leaving I Qf c = Fin (\<Sum>p\<leftarrow>[0..<m]. if I ! p = c then q p else 0)"
proof -
  have Qf: "Qf = map (\<lambda>p. Fin (q p)) [0..<m]"
    using assms(2,3) by (intro nth_equalityI) simp_all
  have "compress (map (\<lambda>n. n = c) I) Qf = map (\<lambda>p. Fin (q p)) (filter (\<lambda>p. I ! p = c) [0..<m])"
  proof -
    have "zip (map (\<lambda>n. n = c) I) Qf = map (\<lambda>p. (I ! p = c, Fin (q p))) [0..<m]"
      using assms by (intro nth_equalityI) simp_all
    then show ?thesis by (simp add: compress_def filter_map comp_def)
  qed
  then show ?thesis
    by (simp add: leaving_def sum_list_map_filter')
qed

text \<open>
  A family of faces, each carrying the flow \<open>C * (h(F) - h(G))\<close> from its cell \<open>F\<close> to its
  cell \<open>G\<close>: what leaves a cell through the faces it feeds, and what reaches it through
  the faces that feed it, as the entries the family has in the matrix.
\<close>

lemma family_outflow:
  fixes h :: "nat \<Rightarrow> real"
  assumes len: "length F = m" "length G = m" "length Cf = m" "length Qf = m"
    and q: "\<And>p. p < m \<Longrightarrow> Qf ! p = Fin (rl (Cf ! p) * (h (F ! p) - h (G ! p)))"
  shows "leaving F Qf c =
           Fin (\<Sum>t\<leftarrow>zip Cf (zip F G). if fst (snd t) = c then rl (fst t) * (h c - h (snd (snd t))) else 0)"
    and "leaving G Qf c =
           Fin (- (\<Sum>t\<leftarrow>zip Cf (zip G F). if fst (snd t) = c then rl (fst t) * (h c - h (snd (snd t))) else 0))"
proof -
  have "(\<Sum>p\<leftarrow>[0..<m]. if F ! p = c then rl (Cf ! p) * (h (F ! p) - h (G ! p)) else 0) =
        (\<Sum>p\<leftarrow>[0..<m]. if F ! p = c then rl (Cf ! p) * (h c - h (G ! p)) else 0)"
    by (rule arg_cong[where f=sum_list]) auto
  then show "leaving F Qf c =
           Fin (\<Sum>t\<leftarrow>zip Cf (zip F G). if fst (snd t) = c then rl (fst t) * (h c - h (snd (snd t))) else 0)"
    using leaving_real[OF len(1,4) q] by (simp add: sum_list_zip3[OF len(3,1,2)] cong: if_cong)
  have "(\<Sum>p\<leftarrow>[0..<m]. if G ! p = c then rl (Cf ! p) * (h (F ! p) - h (G ! p)) else 0) =
        (\<Sum>p\<leftarrow>[0..<m]. - (if G ! p = c then rl (Cf ! p) * (h c - h (F ! p)) else 0))"
    by (rule arg_cong[where f=sum_list]) (auto simp: algebra_simps)
  also have "\<dots> = - (\<Sum>p\<leftarrow>[0..<m]. if G ! p = c then rl (Cf ! p) * (h c - h (F ! p)) else 0)"
    by (induction m) simp_all
  finally show "leaving G Qf c =
           Fin (- (\<Sum>t\<leftarrow>zip Cf (zip G F). if fst (snd t) = c then rl (fst t) * (h c - h (snd (snd t))) else 0))"
    using leaving_real[OF len(2,4) q] by (simp add: sum_list_zip3[OF len(3,2,1)] cong: if_cong)
qed


lemma tab3_nth:
  "p < n0 * n1 * n2 \<Longrightarrow> tab3 n0 n1 n2 f ! p = f (p div (n1 * n2)) ((p div n2) mod n1) (p mod n2)"
  by (simp add: tab3_def)

lemma decode_bounds:
  fixes p n0 n1 n2 :: nat
  assumes "p < n0 * n1 * n2"
  shows "p div (n1 * n2) < n0" "(p div n2) mod n1 < n1" "p mod n2 < n2"
proof -
  from assms have pos: "0 < n1" "0 < n2" by (cases n1; cases n2; simp)+
  show "p div (n1 * n2) < n0"
    using assms by (simp add: less_mult_imp_div_less mult.assoc)
  show "(p div n2) mod n1 < n1" "p mod n2 < n2" using pos by simp_all
qed

lemma at3_decode:
  "at3 n1 n2 xs (p div (n1 * n2)) ((p div n2) mod n1) (p mod n2) = xs ! p"
proof -
  have "p div (n1 * n2) = (p div n2) div n1"
    by (simp only: mult.commute[of n1 n2] div_mult2_eq)
  then have "(p div (n1 * n2) * n1 + (p div n2) mod n1) * n2 + p mod n2 = p"
    by simp
  then show ?thesis by (simp add: at3_def)
qed

lemma at3_upt:
  "k < n0 \<Longrightarrow> j < n1 \<Longrightarrow> i < n2 \<Longrightarrow> at3 n1 n2 [0..<n0 * n1 * n2] k j i = (k * n1 + j) * n2 + i"
  using flat_index_bound[of k n0 j n1 i n2] by (simp add: at3_def)


lemma face_value:
  fixes a b c :: float64
  assumes "is_fin a" "is_fin b" "is_fin c"
  shows "- (a - b) * c = Fin (rl c * (rl b - rl a))"
    and "(a - b) * c = Fin (rl c * (rl a - rl b))"
  using assms by (cases a; cases b; cases c; simp add: float64_ops algebra_simps)+

lemma at3_finite:
  "list_all is_fin xs \<Longrightarrow> length xs = n0 * n1 * n2 \<Longrightarrow> k < n0 \<Longrightarrow> j < n1 \<Longrightarrow> i < n2 \<Longrightarrow>
   is_fin (at3 n1 n2 xs k j i)"
  using flat_index_bound[of k n0 j n1 i n2] by (simp add: at3_def list_all_length)

lemma at3_numbered:
  "k < n0 \<Longrightarrow> j < n1 \<Longrightarrow> i < n2 \<Longrightarrow>
   xs ! (at3 n1 n2 [0..<n0 * n1 * n2] k j i) = at3 n1 n2 xs k j i"
  by (simp add: at3_upt) (simp add: at3_def)

text \<open>
  The flow through a face, as \<^verbatim>\<open>np.diff\<close> along an axis computes it from the heads of the
  two cells that the node numbers name, the cells being numbered in storage order.
\<close>

lemma face_flow_nth:
  fixes Phi1 :: "float64 list"
  assumes p: "p < m0 * m1 * m2"
    and fin: "list_all is_fin Phi1" "length Phi1 = nz * ny * nx"
      "list_all is_fin Cf" "length Cf = m0 * m1 * m2"
    and inb: "\<And>k j i. k < m0 \<Longrightarrow> j < m1 \<Longrightarrow> i < m2 \<Longrightarrow> k + dk < nz \<and> j + dj < ny \<and> i + di < nx"
  shows "tab3 m0 m1 m2 (\<lambda>k j i. (at3 ny nx Phi1 (k + dk) (j + dj) (i + di) - at3 ny nx Phi1 k j i)
                                  * at3 m1 m2 Cf k j i) ! p =
         Fin (rl (Cf ! p) *
              (rl (Phi1 ! (tab3 m0 m1 m2 (\<lambda>k j i. at3 ny nx [0..<nz * ny * nx] (k + dk) (j + dj) (i + di)) ! p)) -
               rl (Phi1 ! (tab3 m0 m1 m2 (\<lambda>k j i. at3 ny nx [0..<nz * ny * nx] k j i) ! p))))"
    and "tab3 m0 m1 m2 (\<lambda>k j i. - (at3 ny nx Phi1 (k + dk) (j + dj) (i + di) - at3 ny nx Phi1 k j i)
                                  * at3 m1 m2 Cf k j i) ! p =
         Fin (rl (Cf ! p) *
              (rl (Phi1 ! (tab3 m0 m1 m2 (\<lambda>k j i. at3 ny nx [0..<nz * ny * nx] k j i) ! p)) -
               rl (Phi1 ! (tab3 m0 m1 m2 (\<lambda>k j i. at3 ny nx [0..<nz * ny * nx] (k + dk) (j + dj) (i + di)) ! p))))"
proof -
  define k where "k = p div (m1 * m2)"
  define j where "j = (p div m2) mod m1"
  define i where "i = p mod m2"
  have kji: "k < m0" "j < m1" "i < m2"
    unfolding k_def j_def i_def using decode_bounds[OF p] by simp_all
  from inb[OF kji] have up: "k + dk < nz" "j + dj < ny" "i + di < nx" by simp_all
  then have lo: "k < nz" "j < ny" "i < nx" by simp_all
  have c: "at3 m1 m2 Cf k j i = Cf ! p"
    unfolding k_def j_def i_def by (rule at3_decode)
  have cfin: "is_fin (Cf ! p)"
    using fin(3,4) p by (simp add: list_all_length)
  have a: "is_fin (at3 ny nx Phi1 (k + dk) (j + dj) (i + di))"
    using fin(1,2) up by (rule at3_finite)
  have b: "is_fin (at3 ny nx Phi1 k j i)"
    using fin(1,2) lo by (rule at3_finite)
  have na: "Phi1 ! (at3 ny nx [0..<nz * ny * nx] (k + dk) (j + dj) (i + di)) =
            at3 ny nx Phi1 (k + dk) (j + dj) (i + di)"
    using up by (rule at3_numbered)
  have nb: "Phi1 ! (at3 ny nx [0..<nz * ny * nx] k j i) = at3 ny nx Phi1 k j i"
    using lo by (rule at3_numbered)
  show "tab3 m0 m1 m2 (\<lambda>k j i. (at3 ny nx Phi1 (k + dk) (j + dj) (i + di) - at3 ny nx Phi1 k j i)
                                  * at3 m1 m2 Cf k j i) ! p =
         Fin (rl (Cf ! p) *
              (rl (Phi1 ! (tab3 m0 m1 m2 (\<lambda>k j i. at3 ny nx [0..<nz * ny * nx] (k + dk) (j + dj) (i + di)) ! p)) -
               rl (Phi1 ! (tab3 m0 m1 m2 (\<lambda>k j i. at3 ny nx [0..<nz * ny * nx] k j i) ! p))))"
    unfolding tab3_nth[OF p] k_def[symmetric] j_def[symmetric] i_def[symmetric] c na nb
    using a b cfin by (rule face_value(2))
  show "tab3 m0 m1 m2 (\<lambda>k j i. - (at3 ny nx Phi1 (k + dk) (j + dj) (i + di) - at3 ny nx Phi1 k j i)
                                  * at3 m1 m2 Cf k j i) ! p =
         Fin (rl (Cf ! p) *
              (rl (Phi1 ! (tab3 m0 m1 m2 (\<lambda>k j i. at3 ny nx [0..<nz * ny * nx] k j i) ! p)) -
               rl (Phi1 ! (tab3 m0 m1 m2 (\<lambda>k j i. at3 ny nx [0..<nz * ny * nx] (k + dk) (j + dj) (i + di)) ! p))))"
    unfolding tab3_nth[OF p] k_def[symmetric] j_def[symmetric] i_def[symmetric] c na nb
    using a b cfin by (rule face_value(1))
qed


lemma sum_list_blocks:
  fixes w :: "'a \<Rightarrow> real"
  shows "(\<Sum>t\<leftarrow>b1 @ b2 @ b3 @ b4 @ b5 @ b6. w t) =
         (\<Sum>t\<leftarrow>b1. w t) + (\<Sum>t\<leftarrow>b2. w t) + (\<Sum>t\<leftarrow>b3. w t) + (\<Sum>t\<leftarrow>b4. w t) +
         (\<Sum>t\<leftarrow>b5. w t) + (\<Sum>t\<leftarrow>b6. w t)"
  by simp

lemma step_face_balance:
  assumes step: "time_step spsolve gr S epsilon dt Phi_prev = Inr r"
    and yfin: "\<And>y. spsolve (reduced_matrix S dt) (reduced_rhs S dt (sys_FQ S) Phi_prev) = Some y \<Longrightarrow>
                 list_all is_fin y"
    and A: "system_matrix gr (sys_Cx S) (sys_Cy S) (sys_Cz S) = Inr (sys_A S)"
    and lenC: "length (sys_Cx S) = gr_nz gr * gr_ny gr * (gr_nx gr - 1)"
      "length (sys_Cy S) = gr_nz gr * (gr_ny gr - 1) * gr_nx gr"
      "length (sys_Cz S) = (gr_nz gr - 1) * gr_ny gr * gr_nx gr"
    and lens: "length (sys_FQ S) = gr_nod gr" "length (sys_active S) = gr_nod gr"
    and finC: "list_all is_fin (sys_Cx S)" "list_all is_fin (sys_Cy S)" "list_all is_fin (sys_Cz S)"
    and nod: "gr_NOD gr = [0..<gr_nod gr]"
    and c: "c < gr_nod gr"
  shows "st_Q r ! c = face_outflow gr (st_Qx r) (st_Qy r) (st_Qz r) c"
proof -
  define nz where "nz = gr_nz gr"
  define ny where "ny = gr_ny gr"
  define nx where "nx = gr_nx gr"
  define Cx where "Cx = sys_Cx S"
  define Cy where "Cy = sys_Cy S"
  define Cz where "Cz = sys_Cz S"
  have n: "gr_nod gr = nz * ny * nx" by (simp add: gr_nod_def nz_def ny_def nx_def)
  have b: "bcast (gr_nod gr) (sys_FQ S) = Inr (sys_FQ S)"
    using lens(1) by (rule bcast_same)
  from step obtain y where y: "spsolve (reduced_matrix S dt) (reduced_rhs S dt (sys_FQ S) Phi_prev) = Some y"
    and ly: "length y = length (filter id (sys_active S))"
    by (auto simp: time_step_def b Let_def split: option.splits if_splits)
  define Phi1 where "Phi1 = mask_assign (sys_active S) (replicate (gr_nod gr) 0) y"
  define P where "P = at3 ny nx Phi1"
  from step y ly have Q: "st_Q r = dot (sys_A S) Phi1"
    and Qx: "st_Qx r = tab3 nz ny (nx - 1) (\<lambda>k j i. - (P k j (i + 1) - P k j i) * at3 ny (nx - 1) Cx k j i)"
    and Qy: "st_Qy r = tab3 nz (ny - 1) nx (\<lambda>k j i. (P k (j + 1) i - P k j i) * at3 (ny - 1) nx Cy k j i)"
    and Qz: "st_Qz r = tab3 (nz - 1) ny nx (\<lambda>k j i. (P (k + 1) j i - P k j i) * at3 ny nx Cz k j i)"
    by (auto simp: time_step_def b Let_def Phi1_def P_def nz_def ny_def nx_def Cx_def Cy_def Cz_def
        split: if_splits)
  have Phi1fin: "list_all is_fin Phi1"
    unfolding Phi1_def by (intro mask_assign_finite yfin[OF y]) (simp add: list_all_iff zero_float64_def)
  have lenPhi1: "length Phi1 = nz * ny * nx"
    using lens(2) by (simp add: Phi1_def n)
  define NN where "NN = at3 ny nx [0..<nz * ny * nx]"
  define IW where "IW = tab3 nz ny (nx - 1) (\<lambda>k j i. NN k j i)"
  define IE where "IE = tab3 nz ny (nx - 1) (\<lambda>k j i. NN k j (i + 1))"
  define IN where "IN = tab3 nz (ny - 1) nx (\<lambda>k j i. NN k j i)"
  define IS where "IS = tab3 nz (ny - 1) nx (\<lambda>k j i. NN k (j + 1) i)"
  define IT where "IT = tab3 (nz - 1) ny nx (\<lambda>k j i. NN k j i)"
  define IB where "IB = tab3 (nz - 1) ny nx (\<lambda>k j i. NN (k + 1) j i)"
  have nbs: "neighbours gr = (IW, IE, IN, IS, IT, IB)"
    by (simp add: neighbours_def Let_def nod n IW_def IE_def IN_def IS_def IT_def IB_def NN_def
        nz_def ny_def nx_def)
  have coo: "assemble_coo gr Cx Cy Cz =
               (Cx @ Cx @ Cy @ Cy @ Cz @ Cz, IE @ IW @ IN @ IS @ IB @ IT, IW @ IE @ IS @ IN @ IT @ IB)"
    by (simp add: assemble_coo_def Let_def nod n IW_def IE_def IN_def IS_def IT_def IB_def NN_def
        nz_def ny_def nx_def)
  have lC: "length Cx = nz * ny * (nx - 1)" "length Cy = nz * (ny - 1) * nx"
    "length Cz = (nz - 1) * ny * nx"
    using lenC by (simp_all add: Cx_def Cy_def Cz_def nz_def ny_def nx_def)
  have fC: "list_all is_fin Cx" "list_all is_fin Cy" "list_all is_fin Cz"
    using finC by (simp_all add: Cx_def Cy_def Cz_def)
  have lI: "length IW = nz * ny * (nx - 1)" "length IE = nz * ny * (nx - 1)"
    "length IN = nz * (ny - 1) * nx" "length IS = nz * (ny - 1) * nx"
    "length IT = (nz - 1) * ny * nx" "length IB = (nz - 1) * ny * nx"
    by (simp_all add: IW_def IE_def IN_def IS_def IT_def IB_def)
  define h where "h j = rl (Phi1 ! j)" for j
  define w where "w t = (if fst (snd t) = c then rl (fst t) * (h c - h (snd (snd t))) else 0)"
    for t :: "float64 \<times> nat \<times> nat"
  have A': "system_matrix gr Cx Cy Cz = Inr (sys_A S)"
    using A by (simp add: Cx_def Cy_def Cz_def)
  have alldat: "list_all is_fin (Cx @ Cx @ Cy @ Cy @ Cz @ Cz)"
    using fC by simp
  have cA: "c < length (sys_A S)"
    using square_system_matrix[OF A'] c by (simp add: square_def)
  have "st_Q r ! c = fsum (map2 (*) (sys_A S ! c) Phi1)"
    using Q cA by (simp add: dot_def)
  also have "\<dots> = Fin (\<Sum>t\<leftarrow>zip (Cx @ Cx @ Cy @ Cy @ Cz @ Cz)
                            (zip (IE @ IW @ IN @ IS @ IB @ IT) (IW @ IE @ IS @ IN @ IT @ IB)). w t)"
    unfolding w_def h_def
    using system_matvec[OF A' coo alldat Phi1fin] lenPhi1 c by (simp add: n)
  also have "zip (Cx @ Cx @ Cy @ Cy @ Cz @ Cz)
                 (zip (IE @ IW @ IN @ IS @ IB @ IT) (IW @ IE @ IS @ IN @ IT @ IB)) =
             zip Cx (zip IE IW) @ zip Cx (zip IW IE) @ zip Cy (zip IN IS) @ zip Cy (zip IS IN) @
             zip Cz (zip IB IT) @ zip Cz (zip IT IB)"
    using lC lI by simp
  finally have Qc: "st_Q r ! c =
      Fin ((\<Sum>t\<leftarrow>zip Cx (zip IE IW). w t) + (\<Sum>t\<leftarrow>zip Cx (zip IW IE). w t) +
           (\<Sum>t\<leftarrow>zip Cy (zip IN IS). w t) + (\<Sum>t\<leftarrow>zip Cy (zip IS IN). w t) +
           (\<Sum>t\<leftarrow>zip Cz (zip IB IT). w t) + (\<Sum>t\<leftarrow>zip Cz (zip IT IB). w t))"
    by (simp only: sum_list_blocks)
  have qx: "st_Qx r ! p = Fin (rl (Cx ! p) * (h (IW ! p) - h (IE ! p)))" if "p < nz * ny * (nx - 1)" for p
    unfolding Qx P_def h_def IW_def IE_def NN_def
    using face_flow_nth(2)[OF that Phi1fin lenPhi1 fC(1) lC(1), of 0 0 1] by simp
  have qy: "st_Qy r ! p = Fin (rl (Cy ! p) * (h (IS ! p) - h (IN ! p)))" if "p < nz * (ny - 1) * nx" for p
    unfolding Qy P_def h_def IS_def IN_def NN_def
    using face_flow_nth(1)[OF that Phi1fin lenPhi1 fC(2) lC(2), of 0 1 0] by simp
  have qz: "st_Qz r ! p = Fin (rl (Cz ! p) * (h (IB ! p) - h (IT ! p)))" if "p < (nz - 1) * ny * nx" for p
    unfolding Qz P_def h_def IB_def IT_def NN_def
    using face_flow_nth(1)[OF that Phi1fin lenPhi1 fC(3) lC(3), of 1 0 0] by simp
  have lQ: "length (st_Qx r) = nz * ny * (nx - 1)" "length (st_Qy r) = nz * (ny - 1) * nx"
    "length (st_Qz r) = (nz - 1) * ny * nx"
    by (simp_all add: Qx Qy Qz)
  have wd: "w = (\<lambda>t. if fst (snd t) = c then rl (fst t) * (h c - h (snd (snd t))) else 0)"
    by (rule ext) (simp add: w_def)
  have fx: "leaving IW (st_Qx r) c = Fin (\<Sum>t\<leftarrow>zip Cx (zip IW IE). w t)"
    "leaving IE (st_Qx r) c = Fin (- (\<Sum>t\<leftarrow>zip Cx (zip IE IW). w t))"
    unfolding wd using family_outflow[OF lI(1,2) lC(1) lQ(1) qx, of c] by simp_all
  have fy: "leaving IS (st_Qy r) c = Fin (\<Sum>t\<leftarrow>zip Cy (zip IS IN). w t)"
    "leaving IN (st_Qy r) c = Fin (- (\<Sum>t\<leftarrow>zip Cy (zip IN IS). w t))"
    unfolding wd using family_outflow[OF lI(4,3) lC(2) lQ(2) qy, of c] by simp_all
  have fz: "leaving IB (st_Qz r) c = Fin (\<Sum>t\<leftarrow>zip Cz (zip IB IT). w t)"
    "leaving IT (st_Qz r) c = Fin (- (\<Sum>t\<leftarrow>zip Cz (zip IT IB). w t))"
    unfolding wd using family_outflow[OF lI(6,5) lC(3) lQ(3) qz, of c] by simp_all
  show ?thesis
    unfolding Qc face_outflow_def nbs
    by (simp add: fx fy fz plus_float64_def minus_float64_def uminus_float64_def)
qed


lemma system_matrix_finite:
  assumes A: "system_matrix gr Cx Cy Cz = Inr A"
    and fin: "list_all is_fin Cx" "list_all is_fin Cy" "list_all is_fin Cz"
    and c: "c < gr_nod gr"
  shows "list_all is_fin (A ! c)"
proof -
  obtain dat rows cols where coo: "assemble_coo gr Cx Cy Cz = (dat, rows, cols)"
    by (cases "assemble_coo gr Cx Cy Cz") auto
  have dfin: "list_all is_fin dat"
    using coo fin by (auto simp: assemble_coo_def Let_def)
  define n where "n = gr_nod gr"
  define a where "a i j = rl (coo_entry dat rows cols i j)" for i j
  have e: "coo_entry dat rows cols i = (\<lambda>j. Fin (a i j))" for i
    by (rule ext) (simp add: a_def is_fin_rl[symmetric] coo_entry_finite[OF dfin])
  from A have A': "A = add_diagonal (map (\<lambda>i. map (\<lambda>j. Fin (a i j)) [0..<n]) [0..<n])"
    by (auto simp: system_matrix_def coo csc_matrix_def e n_def split: if_splits)
  have cn: "c < n" using c by (simp add: n_def)
  show ?thesis
    unfolding A' add_diagonal_table[OF cn cn] by (simp add: list_all_iff)
qed

lemma build_system_conductances:
  assumes "build_system gr kx ky kz Ss FQ IBOUND epsilon = Inr S"
  shows "system_matrix gr (sys_Cx S) (sys_Cy S) (sys_Cz S) = Inr (sys_A S)"
    and "length (sys_Cx S) = gr_nz gr * gr_ny gr * (gr_nx gr - 1)"
    and "length (sys_Cy S) = gr_nz gr * (gr_ny gr - 1) * gr_nx gr"
    and "length (sys_Cz S) = (gr_nz gr - 1) * gr_ny gr * gr_nx gr"
  using assms
  by (auto simp: build_system_def Let_def split: if_splits prod.splits sum.splits
      dest: conductances_lengths)

lemma compress_all:
  "length xs = length ms \<Longrightarrow> (\<And>j. j < length ms \<Longrightarrow> ms ! j \<Longrightarrow> P (xs ! j)) \<Longrightarrow>
   list_all P (compress ms xs)"
proof (induction ms xs rule: list_induct2')
  case (4 m ms x xs)
  from 4(3) have tl: "\<And>j. j < length ms \<Longrightarrow> ms ! j \<Longrightarrow> P (xs ! j)"
    by (metis Suc_less_eq length_Cons nth_Cons_Suc)
  from 4(3)[of 0] have hd: "m \<Longrightarrow> P x" by simp
  from 4(1)[OF _ tl] 4(2) have "list_all P (compress ms xs)" by simp
  then show ?case using hd by (cases m) (simp_all add: compress_def)
qed (simp_all add: compress_def)

lemma fdm3t_head_lengths:
  assumes run: "fdm3t spsolve gr t kxyz Ss FQ HI IBOUND epsilon = Inr out"
    and it: "it < length (Phi out)" and c: "c < gr_nod gr"
  shows "length (Phi out ! it) = gr_nod gr"
proof -
  from run obtain kx ky kz :: "float64 ndarray" and S Phi0 rs where
    sys: "build_system gr (clamp_k (data kx)) (clamp_k (data ky)) (clamp_k (data kz))
            (data Ss) (data FQ) (data IBOUND) epsilon = Inr S"
    and b: "bcast (gr_nod gr) (data HI) = Inr Phi0"
    and loop: "time_loop spsolve gr S epsilon (diff t) Phi0 = Inr rs"
    and P: "Phi out = Phi0 # map st_Phi rs"
    by (elim fdm3t_Inr) blast
  note m = build_system_masks[OF sys]
  have l0: "length Phi0 = gr_nod gr" using b by (rule bcast_length)
  have lens: "length (sys_active S) = gr_nod gr" "length (sys_inact S) = gr_nod gr"
    "length (sys_fxhd S) = gr_nod gr"
    using m by simp_all
  show ?thesis
  proof (cases it)
    case 0
    then show ?thesis using P l0 by simp
  next
    case (Suc n)
    with it P have "n < length rs" by simp
    then have "rs ! n \<in> set rs" by simp
    from time_loop_heads[OF loop l0 lens this c] show ?thesis
      using Suc P \<open>n < length rs\<close> by simp
  qed
qed

lemma neighbours_grid2: "neighbours grid2 = ([0], [1], [], [], [], [])"
  by (simp add: neighbours_def Let_def tab3_grid_2 tab3_empty at3_def grid2_def)

lemma face_outflow_grid2:
  "face_outflow grid2 [q] [] [] (Suc 0) = Fin 0 - q + Fin 0 - Fin 0 + Fin 0 - Fin 0"
  by (simp add: face_outflow_def neighbours_grid2 leaving_def compress_def)




end
